theory Spec2Isabelle
  imports Main "HOL-Library.Word"
begin

unbundle bit_operations_syntax

section \<open>Data model of drivers/gpu/msm/kgsl.c\<close>

text \<open>
  The driver is built for 32-bit ARM: the source prints \<open>sizeof\<close> values with \<open>%d\<close>,
  casts \<open>unsigned int\<close> fields to pointers and prints pointers with \<open>%x\<close>. So
  \<open>unsigned int\<close>, \<open>uint32_t\<close> and \<open>size_t\<close> are all 32-bit words here, and their
  arithmetic wraps modulo \<open>2 ^ 32\<close>.
\<close>

type_synonym u32 = "32 word"

text \<open>
  \<open>struct kgsl_memdesc\<close>, restricted to the fields kgsl.c compares: the device
  address, the byte size and the flag word (\<open>memdesc.priv\<close>).
\<close>

record kgsl_memdesc =
  gpuaddr :: u32
  memdesc_size :: u32
  memdesc_priv :: u32

text \<open>
  \<open>struct kgsl_mem_entry\<close>. The field \<open>priv\<close> points to the owning
  \<open>kgsl_process_private\<close>; the code only compares that pointer, so it is the pid of the
  owner here (kgsl_get_process_private keeps one private per pid).
\<close>

record kgsl_mem_entry =
  memdesc :: kgsl_memdesc
  priv :: nat
  free_timestamp :: u32

record kgsl_process_private =
  pid :: nat
  refcnt :: int
  mem_list :: "kgsl_mem_entry list"

text \<open>
  \<open>struct kgsl_context\<close>: \<open>dev_priv\<close> is the owning file handle (a pointer in C, a
  handle number here), \<open>devctxt\<close> the device-side payload (\<open>None\<close> is \<open>NULL\<close>).
\<close>

record kgsl_context =
  ctx_id :: nat
  dev_priv :: nat
  devctxt :: "nat option"

text \<open>
  The power states that kgsl.c names. Their values are bit flags of a header that is
  not under src/; the device is in one state at a time.
\<close>

datatype kgsl_state =
    KGSL_STATE_NONE
  | KGSL_STATE_INIT
  | KGSL_STATE_ACTIVE
  | KGSL_STATE_NAP
  | KGSL_STATE_SLEEP
  | KGSL_STATE_SUSPEND

datatype kgsl_timestamp_type = KGSL_TIMESTAMP_CONSUMED | KGSL_TIMESTAMP_RETIRED

text \<open>
  Calls that leave the file (the device operation table \<open>ftbl\<close>, the idr, the
  allocator) are recorded in call order, so that statements about what was called,
  and in which order, can be made.
\<close>

datatype event =
    Device_idle
  | Device_suspend_context
  | Device_stop
  | Device_drawctxt_create nat
  | Device_drawctxt_destroy nat
  | Device_issueibcmds nat
  | Idr_remove nat
  | Kzalloc
  | Kfree

text \<open>
  \<open>struct kgsl_device\<close>. A \<open>struct completion\<close> is its \<open>done\<close> counter;
  \<open>context_idr\<close> is the list of the live contexts, each stored under its own
  \<open>ctx_id\<close> (kgsl_create_context sets \<open>context->id\<close> to the idr key);
  \<open>ts_consumed\<close> and \<open>ts_retired\<close> are what the hardware reports to
  \<open>ftbl.device_cmdstream_readtimestamp\<close>. Two fields are not in the C struct:
  \<open>destroyed\<close> lists the entries handed to kgsl_destroy_mem_entry (which unmaps and
  frees them), oldest first, and \<open>trace\<close> lists the recorded calls.
\<close>

record kgsl_device =
  state :: kgsl_state
  requested_state :: kgsl_state
  nap_allowed :: bool
  active_cnt :: u32
  open_count :: int
  suspend_gate :: nat
  hwaccess_gate :: nat
  idle_timer :: bool
  memqueue :: "kgsl_mem_entry list"
  context_idr :: "kgsl_context list"
  ts_consumed :: u32
  ts_retired :: u32
  destroyed :: "kgsl_mem_entry list"
  trace :: "event list"

text \<open>
  \<open>struct kgsl_device_private\<close>: one open file handle. In C it points to the device
  and to the process private; the model passes both by value and returns them updated.
  \<open>handle\<close> stands for the address of the struct, which contexts are compared with.
\<close>

record kgsl_device_private =
  handle :: nat
  device :: kgsl_device
  process_priv :: kgsl_process_private

text \<open>
  Ways in which a call does not return: \<open>BUG\<close> is a \<open>BUG_ON\<close> that fires,
  \<open>OUT_OF_BOUNDS\<close> a read behind the end of an allocation.
\<close>

datatype fault = BUG | OUT_OF_BOUNDS

text \<open>
  The functions of the device operation table \<open>ftbl\<close> whose results kgsl.c uses.
  They are code of the backend, not of this file, so they are parameters:
  \<^item> \<open>device_stop\<close> gives the value it returns;
  \<^item> \<open>device_drawctxt_create\<close> (flags, context) and \<open>device_drawctxt_destroy\<close>
    (context) give the value they return and the payload they leave in
    \<open>context->devctxt\<close>;
  \<^item> \<open>device_issueibcmds\<close> (handle, context, descriptors, count, the timestamp
    found in \<open>param->timestamp\<close>, flags) gives the value it returns, the timestamp
    it leaves in \<open>param->timestamp\<close>, and the handle
    with its device and its process as they are when the call is over: the hardware
    moves on, and other threads may free regions of the process meanwhile.
\<close>

record kgsl_ibdesc =
  ibdesc_gpuaddr :: u32
  sizedwords :: u32

record kgsl_functable =
  device_stop :: "kgsl_device \<Rightarrow> int"
  device_drawctxt_create :: "u32 \<Rightarrow> kgsl_context \<Rightarrow> int \<times> nat option"
  device_drawctxt_destroy :: "kgsl_context \<Rightarrow> int \<times> nat option"
  device_issueibcmds ::
    "kgsl_device_private \<Rightarrow> kgsl_context \<Rightarrow> kgsl_ibdesc list \<Rightarrow> u32 \<Rightarrow> u32 \<Rightarrow> u32 \<Rightarrow>
     int \<times> u32 \<times> kgsl_device_private"

definition EINVAL :: int where "EINVAL = 22"
definition ENOMEM :: int where "ENOMEM = 12"
definition EFAULT :: int where "EFAULT = 14"

section \<open>Deferred-free queue\<close>

definition device_cmdstream_readtimestamp :: "kgsl_device \<Rightarrow> kgsl_timestamp_type \<Rightarrow> u32" where
  "device_cmdstream_readtimestamp d ty =
     (case ty of KGSL_TIMESTAMP_CONSUMED \<Rightarrow> ts_consumed d | KGSL_TIMESTAMP_RETIRED \<Rightarrow> ts_retired d)"

text \<open>
  Modelled from the spec: \<open>timestamp_cmp\<close> is declared in a header that is not under
  src/. The spec asks for a wraparound-aware comparison that treats the timestamp as a
  fixed-width counter that wraps: \<open>new\<close> has reached \<open>old\<close> when the 32-bit difference,
  read as a signed number, is not negative. The functions below take the comparison as
  the parameter \<open>cmp\<close>; this definition only instantiates it in examples.
\<close>

definition timestamp_cmp :: "u32 \<Rightarrow> u32 \<Rightarrow> bool" where
  "timestamp_cmp new old = (0 \<le> sint (new - old))"

text \<open>
  The loop of kgsl_memqueue_drain over the queue, head first. It returns the entries
  it unlinked and destroyed, in that order, and the queue that is left. The \<open>break\<close>
  is the first branch: nothing behind the first unreached entry is read.
\<close>

fun memqueue_drain_loop ::
  "(u32 \<Rightarrow> u32 \<Rightarrow> bool) \<Rightarrow> u32 \<Rightarrow> kgsl_mem_entry list \<Rightarrow> kgsl_mem_entry list \<times> kgsl_mem_entry list" where
  "memqueue_drain_loop cmp ts_processed [] = ([], [])"
| "memqueue_drain_loop cmp ts_processed (entry # rest) =
     (if \<not> cmp ts_processed (free_timestamp entry) then ([], entry # rest)
      else (case memqueue_drain_loop cmp ts_processed rest of
              (freed, left) \<Rightarrow> (entry # freed, left)))"

definition kgsl_memqueue_drain :: "(u32 \<Rightarrow> u32 \<Rightarrow> bool) \<Rightarrow> kgsl_device \<Rightarrow> kgsl_device" where
  "kgsl_memqueue_drain cmp d =
     (let ts_processed = device_cmdstream_readtimestamp d KGSL_TIMESTAMP_RETIRED in
      case memqueue_drain_loop cmp ts_processed (memqueue d) of
        (freed, left) \<Rightarrow> d\<lparr>memqueue := left, destroyed := destroyed d @ freed\<rparr>)"

definition kgsl_memqueue_freememontimestamp ::
  "kgsl_device \<Rightarrow> kgsl_mem_entry \<Rightarrow> u32 \<Rightarrow> kgsl_timestamp_type \<Rightarrow> kgsl_device" where
  "kgsl_memqueue_freememontimestamp d entry timestamp ty =
     d\<lparr>memqueue := memqueue d @ [entry\<lparr>free_timestamp := timestamp\<rparr>]\<rparr>"

text \<open>kgsl_memqueue_cleanup: every queued entry of the process is unlinked and destroyed.\<close>

fun memqueue_cleanup_loop :: "nat \<Rightarrow> kgsl_mem_entry list \<Rightarrow> kgsl_mem_entry list \<times> kgsl_mem_entry list" where
  "memqueue_cleanup_loop private [] = ([], [])"
| "memqueue_cleanup_loop private (entry # rest) =
     (case memqueue_cleanup_loop private rest of
        (freed, left) \<Rightarrow>
          if priv entry = private then (entry # freed, left) else (freed, entry # left))"

definition kgsl_memqueue_cleanup :: "kgsl_device \<Rightarrow> kgsl_process_private \<Rightarrow> kgsl_device" where
  "kgsl_memqueue_cleanup d private =
     (case memqueue_cleanup_loop (pid private) (memqueue d) of
        (freed, left) \<Rightarrow> d\<lparr>memqueue := left, destroyed := destroyed d @ freed\<rparr>)"

section \<open>Memory region registry\<close>

fun kgsl_sharedmem_find :: "kgsl_mem_entry list \<Rightarrow> u32 \<Rightarrow> kgsl_mem_entry option" where
  "kgsl_sharedmem_find [] addr = None"
| "kgsl_sharedmem_find (entry # rest) addr =
     (if gpuaddr (memdesc entry) = addr then Some entry else kgsl_sharedmem_find rest addr)"

text \<open>
  kgsl_sharedmem_find_region. Both sums are 32-bit sums, as in the C expression
  \<open>(gpuaddr + size) <= (entry->memdesc.gpuaddr + entry->memdesc.size)\<close>.
\<close>

fun kgsl_sharedmem_find_region :: "kgsl_mem_entry list \<Rightarrow> u32 \<Rightarrow> u32 \<Rightarrow> kgsl_mem_entry option" where
  "kgsl_sharedmem_find_region [] addr sz = None"
| "kgsl_sharedmem_find_region (entry # rest) addr sz =
     (if gpuaddr (memdesc entry) \<le> addr \<and>
         addr + sz \<le> gpuaddr (memdesc entry) + memdesc_size (memdesc entry)
      then Some entry else kgsl_sharedmem_find_region rest addr sz)"

text \<open>
  What the spec means by containment, over the natural numbers: the byte extent
  \<open>[addr, addr + len)\<close> lies inside the mapped range of the entry.
\<close>

definition region_contains :: "kgsl_mem_entry \<Rightarrow> nat \<Rightarrow> nat \<Rightarrow> bool" where
  "region_contains entry addr len =
     (unat (gpuaddr (memdesc entry)) \<le> addr \<and>
      addr + len \<le> unat (gpuaddr (memdesc entry)) + unat (memdesc_size (memdesc entry)))"

definition kgsl_destroy_mem_entry :: "kgsl_device \<Rightarrow> kgsl_mem_entry \<Rightarrow> kgsl_device" where
  "kgsl_destroy_mem_entry d entry = d\<lparr>destroyed := destroyed d @ [entry]\<rparr>"

text \<open>
  kgsl_ioctl_sharedmem_free. \<open>list_del\<close> unlinks the node that kgsl_sharedmem_find
  returned, which is the first node of the list with that address.
\<close>

definition kgsl_ioctl_sharedmem_free :: "kgsl_device_private \<Rightarrow> u32 \<Rightarrow> int \<times> kgsl_device_private" where
  "kgsl_ioctl_sharedmem_free dp addr =
     (let private = process_priv dp in
      case kgsl_sharedmem_find (mem_list private) addr of
        Some entry \<Rightarrow>
          (0, dp\<lparr>process_priv := private\<lparr>mem_list := remove1 entry (mem_list private)\<rparr>,
                 device := kgsl_destroy_mem_entry (device dp) entry\<rparr>)
      | None \<Rightarrow> (- EINVAL, dp))"

section \<open>Power state machine\<close>

text \<open>
  Completions (\<open>linux/completion.h\<close>), by their \<open>done\<close> counter: \<open>INIT_COMPLETION\<close>
  sets it to 0, \<open>complete\<close> adds one, and \<open>wait_for_completion\<close> takes one as soon as
  there is one. The model is sequential: a caller that finds the counter at 0 sleeps
  until another thread completes, and no other thread runs within one call of the
  model, so that outcome is \<open>None\<close>, "the caller is blocked".
\<close>

definition wait_for_completion :: "nat \<Rightarrow> nat option" where
  "wait_for_completion done_cnt = (if done_cnt = 0 then None else Some (done_cnt - 1))"

text \<open>
  One round of the loop of kgsl_suspend, for a device that is present. The result is
  \<open>None\<close> when the caller blocks on \<open>suspend_gate\<close>; otherwise the device, and whether
  the loop goes on (\<open>True\<close>) or kgsl_suspend returns \<open>-EINVAL\<close> at once (\<open>False\<close>, the
  \<open>default\<close> case of the switch). The \<open>ACTIVE\<close> case falls through to the code of
  \<open>NAP\<close> and \<open>SLEEP\<close>.
\<close>

definition suspend_stop :: "kgsl_device \<Rightarrow> kgsl_device" where
  "suspend_stop d =
     d\<lparr>hwaccess_gate := 0,
       trace := trace d @ [Device_suspend_context, Device_stop],
       state := KGSL_STATE_SUSPEND\<rparr>"

definition kgsl_suspend_device :: "kgsl_device \<Rightarrow> (bool \<times> kgsl_device) option" where
  "kgsl_suspend_device d =
     (let nap_allowed_saved = nap_allowed d;
          d1 = d\<lparr>nap_allowed := False, requested_state := KGSL_STATE_SUSPEND\<rparr>;
          gate = (if active_cnt d1 \<noteq> 0
                  then map_option (\<lambda>n. d1\<lparr>suspend_gate := n\<rparr>) (wait_for_completion (suspend_gate d1))
                  else Some d1)
      in case gate of
           None \<Rightarrow> None
         | Some d2 \<Rightarrow>
             (let d3 = d2\<lparr>idle_timer := False\<rparr>;
                  finish = (\<lambda>d'. Some (True, d'\<lparr>requested_state := KGSL_STATE_NONE,
                                                nap_allowed := nap_allowed_saved\<rparr>))
              in case state d3 of
                   KGSL_STATE_INIT \<Rightarrow> finish d3
                 | KGSL_STATE_ACTIVE \<Rightarrow> finish (suspend_stop (d3\<lparr>trace := trace d3 @ [Device_idle]\<rparr>))
                 | KGSL_STATE_NAP \<Rightarrow> finish (suspend_stop d3)
                 | KGSL_STATE_SLEEP \<Rightarrow> finish (suspend_stop d3)
                 | _ \<Rightarrow> Some (False, d3)))"

text \<open>
  kgsl_suspend over \<open>kgsl_driver.devp\<close>, the array of the devices (\<open>None\<close> is an empty
  slot). It returns the value of the C function and the devices, or \<open>None\<close> when the
  caller blocks.
\<close>

fun kgsl_suspend :: "kgsl_device option list \<Rightarrow> (int \<times> kgsl_device option list) option" where
  "kgsl_suspend [] = Some (0, [])"
| "kgsl_suspend (None # devp) =
     (case kgsl_suspend devp of None \<Rightarrow> None | Some (r, devp') \<Rightarrow> Some (r, None # devp'))"
| "kgsl_suspend (Some d # devp) =
     (case kgsl_suspend_device d of
        None \<Rightarrow> None
      | Some (False, d') \<Rightarrow> Some (- EINVAL, Some d' # devp)
      | Some (True, d') \<Rightarrow>
          (case kgsl_suspend devp of None \<Rightarrow> None | Some (r, devp') \<Rightarrow> Some (r, Some d' # devp')))"

section \<open>Waiting for a timestamp\<close>

text \<open>\<open>MSEC_PER_SEC\<close> of \<open>linux/time.h\<close>: the milliseconds of one second.\<close>

definition MSEC_PER_SEC :: u32 where
  "MSEC_PER_SEC = 1000"

text \<open>
  kgsl_ioctl_device_waittimestamp. The wait itself is \<open>ftbl.device_waittimestamp\<close>, a
  function of the backend that is not in this file: it is the parameter \<open>wait\<close>, which
  gets the device, the timestamp and the timeout in milliseconds, and returns its
  result, the device as it is when the wait is over (the backend gives up the
  device mutex while it sleeps, so the hardware and other threads may have changed
  it), and the milliseconds for which it kept the caller asleep. The function returns
  the result, the device, \<open>param->timeout\<close> as it is left in the request, and the
  milliseconds for which the caller was blocked in the wait. The two times are no
  values of the C code: they are what a bound on the length of the wait is stated on.
  \<open>param->timeout\<close> is an \<open>unsigned int\<close>: the comparison with \<open>-1\<close> is a
  comparison with \<open>0xFFFFFFFF\<close>.
\<close>

definition kgsl_ioctl_device_waittimestamp ::
  "(u32 \<Rightarrow> u32 \<Rightarrow> bool) \<Rightarrow> (kgsl_device \<Rightarrow> u32 \<Rightarrow> u32 \<Rightarrow> int \<times> kgsl_device \<times> nat) \<Rightarrow>
   kgsl_device \<Rightarrow> u32 \<Rightarrow> u32 \<Rightarrow> int \<times> kgsl_device \<times> u32 \<times> nat" where
  "kgsl_ioctl_device_waittimestamp cmp wait d timestamp timeout =
     (let d1 = d\<lparr>active_cnt := active_cnt d + 1\<rparr>;
          timeout' = (if timeout = - 1 then 10 * MSEC_PER_SEC else timeout)
      in case wait d1 timestamp timeout' of
           (result, d2, slept) \<Rightarrow>
             (let d3 = kgsl_memqueue_drain cmp d2;
                  d4 = d3\<lparr>suspend_gate := 0\<rparr>;
                  d5 = d4\<lparr>active_cnt := active_cnt d4 - 1\<rparr>;
                  d6 = d5\<lparr>suspend_gate := suspend_gate d5 + 1\<rparr>
              in (result, d6, timeout', slept)))"

section \<open>Context table\<close>

text \<open>
  The idr of the device (\<open>lib/idr.c\<close>) as the list of the contexts it holds.
  \<open>idr_get_next\<close> gives the entry with the smallest id that is not below \<open>next\<close>;
  \<open>idr_remove\<close> drops what is stored under an id; \<open>idr_get_new\<close> takes the smallest
  id that is free.
\<close>

fun idr_get_next :: "kgsl_context list \<Rightarrow> nat \<Rightarrow> kgsl_context option" where
  "idr_get_next [] next = None"
| "idr_get_next (c # cs) next =
     (case idr_get_next cs next of
        None \<Rightarrow> if next \<le> ctx_id c then Some c else None
      | Some c' \<Rightarrow> if next \<le> ctx_id c \<and> ctx_id c < ctx_id c' then Some c else Some c')"

definition idr_remove :: "kgsl_context list \<Rightarrow> nat \<Rightarrow> kgsl_context list" where
  "idr_remove idr i = filter (\<lambda>c. ctx_id c \<noteq> i) idr"

definition idr_get_new :: "kgsl_context list \<Rightarrow> nat" where
  "idr_get_new idr =
     (case filter (\<lambda>i. i \<notin> ctx_id ` set idr) [0 ..< Suc (length idr)] of
        [] \<Rightarrow> Suc (length idr)
      | i # _ \<Rightarrow> i)"

text \<open>
  Modelled from the spec: kgsl_find_context is an inline function of a header that is
  not under src/. Section 4.1 gives \<open>find(process_handle, id) -> Context | NotFound\<close>:
  the context stored under the id, when the handle owns it.
\<close>

definition kgsl_find_context :: "kgsl_device_private \<Rightarrow> nat \<Rightarrow> kgsl_context option" where
  "kgsl_find_context dp i =
     (case find (\<lambda>c. ctx_id c = i) (context_idr (device dp)) of
        None \<Rightarrow> None
      | Some c \<Rightarrow> if dev_priv c = handle dp then Some c else None)"

text \<open>
  kgsl_create_context. The allocations (\<open>kzalloc\<close>, \<open>idr_pre_get\<close>) succeed or not:
  \<open>alloc_ok\<close>. The new context is stored in the idr under its id. The loop of the
  source repeats \<open>idr_get_new\<close> while it answers \<open>-EAGAIN\<close>, which it does only when
  another caller has used up what \<open>idr_pre_get\<close> had set aside; callers hold the device
  mutex, so the first round succeeds. An idr that has no free id left is not modelled.
\<close>

definition kgsl_create_context :: "bool \<Rightarrow> kgsl_device_private \<Rightarrow> kgsl_context option \<times> kgsl_device" where
  "kgsl_create_context alloc_ok dp =
     (if \<not> alloc_ok then (None, device dp)
      else (let context = \<lparr>ctx_id = idr_get_new (context_idr (device dp)),
                            dev_priv = handle dp, devctxt = None\<rparr>
            in (Some context, (device dp)\<lparr>context_idr := context_idr (device dp) @ [context]\<rparr>)))"

text \<open>
  kgsl_destroy_context. \<open>BUG_ON(context->devctxt)\<close> stops the kernel thread before the
  idr is touched: the result is the fault, and no device.
\<close>

definition kgsl_destroy_context :: "kgsl_device \<Rightarrow> kgsl_context option \<Rightarrow> fault + kgsl_device" where
  "kgsl_destroy_context d context =
     (case context of
        None \<Rightarrow> Inr d
      | Some c \<Rightarrow>
          if devctxt c \<noteq> None then Inl BUG
          else Inr (d\<lparr>context_idr := idr_remove (context_idr d) (ctx_id c),
                       trace := trace d @ [Idr_remove (ctx_id c)]\<rparr>))"

text \<open>
  kgsl_ioctl_drawctxt_create: the value returned, the device, and \<open>param->drawctxt_id\<close>
  (unchanged when no context could be allocated). The backend writes the payload into
  the context, which the idr holds.
\<close>

definition set_devctxt :: "kgsl_context list \<Rightarrow> nat \<Rightarrow> nat option \<Rightarrow> kgsl_context list" where
  "set_devctxt idr i payload = map (\<lambda>c. if ctx_id c = i then c\<lparr>devctxt := payload\<rparr> else c) idr"

definition kgsl_ioctl_drawctxt_create ::
  "kgsl_functable \<Rightarrow> bool \<Rightarrow> kgsl_device_private \<Rightarrow> u32 \<Rightarrow> nat \<Rightarrow> fault + (int \<times> kgsl_device \<times> nat)" where
  "kgsl_ioctl_drawctxt_create ftbl alloc_ok dp ctx_flags drawctxt_id =
     (case kgsl_create_context alloc_ok dp of
        (None, d) \<Rightarrow> Inr (- ENOMEM, d, drawctxt_id)
      | (Some context, d) \<Rightarrow>
          (case device_drawctxt_create ftbl ctx_flags context of
             (result, payload) \<Rightarrow>
               (let context' = context\<lparr>devctxt := payload\<rparr>;
                    d1 = d\<lparr>context_idr := set_devctxt (context_idr d) (ctx_id context) payload,
                           trace := trace d @ [Device_drawctxt_create (ctx_id context)]\<rparr>
                in if result \<noteq> 0
                   then (case kgsl_destroy_context d1 (Some context') of
                           Inl f \<Rightarrow> Inl f
                         | Inr d2 \<Rightarrow> Inr (result, d2, ctx_id context))
                   else Inr (result, d1, ctx_id context))))"

text \<open>
  The two steps that destroy a context the handle owns, in the order of the source:
  \<open>ftbl.device_drawctxt_destroy\<close>, then kgsl_destroy_context on the context as the
  backend left it.
\<close>

definition drawctxt_destroy_both ::
  "kgsl_functable \<Rightarrow> kgsl_device \<Rightarrow> kgsl_context \<Rightarrow> int \<times> (fault + kgsl_device)" where
  "drawctxt_destroy_both ftbl d context =
     (case device_drawctxt_destroy ftbl context of
        (result, payload) \<Rightarrow>
          (result,
           kgsl_destroy_context
             (d\<lparr>context_idr := set_devctxt (context_idr d) (ctx_id context) payload,
                trace := trace d @ [Device_drawctxt_destroy (ctx_id context)]\<rparr>)
             (Some (context\<lparr>devctxt := payload\<rparr>))))"

definition kgsl_ioctl_drawctxt_destroy ::
  "kgsl_functable \<Rightarrow> kgsl_device_private \<Rightarrow> nat \<Rightarrow> fault + (int \<times> kgsl_device)" where
  "kgsl_ioctl_drawctxt_destroy ftbl dp drawctxt_id =
     (case kgsl_find_context dp drawctxt_id of
        None \<Rightarrow> Inr (- EINVAL, device dp)
      | Some context \<Rightarrow>
          (case drawctxt_destroy_both ftbl (device dp) context of
             (result, Inl f) \<Rightarrow> Inl f
           | (result, Inr d) \<Rightarrow> Inr (result, d)))"

section \<open>Closing a handle\<close>

text \<open>
  The \<open>while (1)\<close> loop of kgsl_release: one round for the context \<open>idr_get_next\<close>
  found, then the loop from the next id on.
\<close>

definition release_context :: "kgsl_functable \<Rightarrow> nat \<Rightarrow> kgsl_device \<Rightarrow> kgsl_context \<Rightarrow> fault + kgsl_device" where
  "release_context ftbl h d context =
     (if dev_priv context = h then snd (drawctxt_destroy_both ftbl d context) else Inr d)"

lemma idr_get_next_Some:
  "idr_get_next idr next = Some c \<Longrightarrow>
   c \<in> set idr \<and> next \<le> ctx_id c \<and> (\<forall>x \<in> set idr. next \<le> ctx_id x \<longrightarrow> ctx_id c \<le> ctx_id x)"
proof (induction idr arbitrary: c)
  case Nil
  then show ?case by simp
next
  case (Cons a idr)
  show ?case
  proof (cases "idr_get_next idr next")
    case None
    then have "\<forall>x \<in> set idr. \<not> next \<le> ctx_id x"
      by (induction idr) (auto split: option.splits if_splits)
    then show ?thesis using Cons.prems None by (auto split: if_splits)
  next
    case (Some c')
    from Cons.IH [OF Some] show ?thesis
      using Cons.prems Some by (fastforce split: if_splits)
  qed
qed

lemma release_context_idr:
  "release_context ftbl h d context = Inr d' \<Longrightarrow>
   context_idr d' = context_idr d \<or>
   context_idr d' = filter (\<lambda>c. ctx_id c \<noteq> ctx_id context)
                      (set_devctxt (context_idr d) (ctx_id context) (snd (device_drawctxt_destroy ftbl context)))"
  by (auto simp: release_context_def drawctxt_destroy_both_def kgsl_destroy_context_def idr_remove_def
      split: if_splits prod.splits)

lemma filter_set_devctxt:
  "filter (\<lambda>c. P (ctx_id c)) (set_devctxt idr i payload) =
   set_devctxt (filter (\<lambda>c. P (ctx_id c)) idr) i payload"
  by (induction idr) (auto simp: set_devctxt_def)

lemma length_filter_filter_le: "length (filter P (filter Q xs)) \<le> length (filter P xs)"
  by (induction xs) auto

lemma length_set_devctxt: "length (set_devctxt idr i payload) = length idr"
  by (simp add: set_devctxt_def)

lemma release_context_measure:
  assumes "idr_get_next (context_idr d) next = Some context"
    and "release_context ftbl h d context = Inr d'"
  shows "length (filter (\<lambda>c. Suc (ctx_id context) \<le> ctx_id c) (context_idr d'))
         < length (filter (\<lambda>c. next \<le> ctx_id c) (context_idr d))"
proof -
  let ?P = "\<lambda>c. next \<le> ctx_id c"
  let ?P' = "\<lambda>c. Suc (ctx_id context) \<le> ctx_id c"
  from idr_get_next_Some [OF assms(1)]
  have c: "context \<in> set (context_idr d)" "next \<le> ctx_id context" by simp_all
  have "filter ?P' (context_idr d) = filter ?P' (filter ?P (context_idr d))"
    using c(2) by (auto intro: filter_cong)
  moreover have "length (filter ?P' (filter ?P (context_idr d))) < length (filter ?P (context_idr d))"
    by (rule length_filter_less [of "context"]) (use c in auto)
  ultimately have base: "length (filter ?P' (context_idr d)) < length (filter ?P (context_idr d))"
    by simp
  from release_context_idr [OF assms(2)] show ?thesis
  proof
    assume "context_idr d' = context_idr d"
    then show ?thesis using base by simp
  next
    let ?pl = "snd (device_drawctxt_destroy ftbl context)"
    assume e: "context_idr d' = filter (\<lambda>c. ctx_id c \<noteq> ctx_id context)
        (set_devctxt (context_idr d) (ctx_id context) ?pl)"
    have "length (filter ?P' (context_idr d'))
        \<le> length (filter ?P' (set_devctxt (context_idr d) (ctx_id context) ?pl))"
      unfolding e by (rule length_filter_filter_le)
    also have "\<dots> = length (filter ?P' (context_idr d))"
      by (simp add: filter_set_devctxt [of "\<lambda>i. Suc (ctx_id context) \<le> i"] length_set_devctxt)
    finally show ?thesis using base by simp
  qed
qed

function release_contexts :: "kgsl_functable \<Rightarrow> nat \<Rightarrow> kgsl_device \<Rightarrow> nat \<Rightarrow> fault + kgsl_device" where
  "release_contexts ftbl h d next =
     (case idr_get_next (context_idr d) next of
        None \<Rightarrow> Inr d
      | Some context \<Rightarrow>
          (case release_context ftbl h d context of
             Inl f \<Rightarrow> Inl f
           | Inr d' \<Rightarrow> release_contexts ftbl h d' (ctx_id context + 1)))"
  by pat_completeness auto
termination
  by (relation "measure (\<lambda>(ftbl, h, d, next). length (filter (\<lambda>c. next \<le> ctx_id c) (context_idr d)))")
     (auto simp: release_context_measure)

text \<open>
  kgsl_put_process_private: the last reference destroys every region that is still
  live and frees the process private (\<open>None\<close>).
\<close>

definition kgsl_put_process_private ::
  "kgsl_device \<Rightarrow> kgsl_process_private \<Rightarrow> kgsl_device \<times> kgsl_process_private option" where
  "kgsl_put_process_private d private =
     (let private' = private\<lparr>refcnt := refcnt private - 1\<rparr>
      in if refcnt private' \<noteq> 0 then (d, Some private')
         else (d\<lparr>destroyed := destroyed d @ mem_list private'\<rparr>, None))"

text \<open>
  kgsl_release, from the point where it holds the device mutex and
  kgsl_check_suspended (a wait, defined outside this file) has returned. It gives the
  value returned, the device and what is left of the process private.
  \<open>open_count\<close> is -1 while no handle is open (kgsl_open starts the device when
  \<open>atomic_inc_and_test\<close> brings it to 0).
\<close>

definition kgsl_release ::
  "kgsl_functable \<Rightarrow> kgsl_device_private \<Rightarrow> fault + (int \<times> kgsl_device \<times> kgsl_process_private option)" where
  "kgsl_release ftbl dp =
     (case release_contexts ftbl (handle dp) (device dp) 0 of
        Inl f \<Rightarrow> Inl f
      | Inr d1 \<Rightarrow>
          (let d2 = d1\<lparr>open_count := open_count d1 - 1\<rparr>;
               stopped = (open_count d2 = - 1);
               result = (if stopped then device_stop ftbl d2 else 0);
               d3 = (if stopped
                     then d2\<lparr>trace := trace d2 @ [Device_stop], state := KGSL_STATE_INIT\<rparr>
                     else d2);
               d4 = kgsl_memqueue_cleanup d3 (process_priv dp)
           in case kgsl_put_process_private d4 (process_priv dp) of
                (d5, private) \<Rightarrow> Inr (result, d5, private)))"

declare release_contexts.simps [simp del]

definition destroy_events :: "nat \<Rightarrow> event list" where
  "destroy_events i = [Device_drawctxt_destroy i, Idr_remove i]"

section \<open>Issuing command buffers\<close>

text \<open>
  \<open>struct kgsl_ringbuffer_issueibcmds\<close>, the payload of the request, and what
  kgsl_ioctl_rb_issueibcmds takes from outside this file:
  \<^item> \<open>KGSL_CONTEXT_SUBMIT_IB_LIST\<close>, a flag bit of a header that is not under src/;
  \<^item> whether \<open>kzalloc\<close> succeeds;
  \<^item> \<open>copy_from_user\<close> of the descriptor array at a user address, for a count of
    descriptors: the array it delivers, or \<open>None\<close> for a fault;
  \<^item> kgsl_cffdump_parse_ibs (memdesc, gpuaddr, sizedwords) of kgsl_cffdump.h.
\<close>

record kgsl_ringbuffer_issueibcmds =
  drawctxt_id :: nat
  ibdesc_addr :: u32
  numibs :: u32
  timestamp :: u32
  flags :: u32

record issueibcmds_env =
  KGSL_CONTEXT_SUBMIT_IB_LIST :: u32
  kzalloc_ok :: bool
  copy_ibdesc_from_user :: "u32 \<Rightarrow> u32 \<Rightarrow> kgsl_ibdesc list option"
  kgsl_cffdump_parse_ibs :: "kgsl_memdesc \<Rightarrow> u32 \<Rightarrow> u32 \<Rightarrow> bool"

text \<open>
  check_ibdesc: the \<open>for\<close> loop, with the descriptors from index \<open>i\<close> on and the
  \<open>numibs - i\<close> rounds still to run. A round that finds the array exhausted reads
  behind its end. The size handed to kgsl_sharedmem_find_region is the 32-bit product
  \<open>sizedwords * sizeof(uint)\<close>.
\<close>

fun check_ibdesc_loop ::
  "(kgsl_memdesc \<Rightarrow> u32 \<Rightarrow> u32 \<Rightarrow> bool) \<Rightarrow> kgsl_mem_entry list \<Rightarrow> kgsl_ibdesc list \<Rightarrow> nat \<Rightarrow> bool \<Rightarrow>
   fault + bool" where
  "check_ibdesc_loop parse_ibs mem ibdesc 0 parse = Inr True"
| "check_ibdesc_loop parse_ibs mem [] (Suc n) parse = Inl OUT_OF_BOUNDS"
| "check_ibdesc_loop parse_ibs mem (ib # ibdesc) (Suc n) parse =
     (case kgsl_sharedmem_find_region mem (ibdesc_gpuaddr ib) (sizedwords ib * 4) of
        None \<Rightarrow> Inr False
      | Some entry \<Rightarrow>
          if parse \<and> \<not> parse_ibs (memdesc entry) (ibdesc_gpuaddr ib) (sizedwords ib)
          then Inr False
          else check_ibdesc_loop parse_ibs mem ibdesc n parse)"

definition check_ibdesc ::
  "issueibcmds_env \<Rightarrow> kgsl_device_private \<Rightarrow> kgsl_ibdesc list \<Rightarrow> u32 \<Rightarrow> bool \<Rightarrow> fault + bool" where
  "check_ibdesc env dp ibdesc n parse =
     check_ibdesc_loop (kgsl_cffdump_parse_ibs env) (mem_list (process_priv dp)) ibdesc (unat n) parse"

definition log_event :: "event \<Rightarrow> kgsl_device_private \<Rightarrow> kgsl_device_private" where
  "log_event e dp = dp\<lparr>device := (device dp)\<lparr>trace := trace (device dp) @ [e]\<rparr>\<rparr>"

text \<open>
  kgsl_ioctl_rb_issueibcmds from the first check_ibdesc to the label \<open>free_ibdesc\<close>,
  where \<open>ibdesc\<close> has been allocated and filled. The backend gets the cell
  \<open>param->timestamp\<close> and leaves its new timestamp there.
\<close>

definition issueibcmds_submit ::
  "kgsl_functable \<Rightarrow> issueibcmds_env \<Rightarrow> kgsl_device_private \<Rightarrow> kgsl_context \<Rightarrow> kgsl_ibdesc list \<Rightarrow>
   kgsl_ringbuffer_issueibcmds \<Rightarrow> fault + (int \<times> kgsl_device_private \<times> kgsl_ringbuffer_issueibcmds)" where
  "issueibcmds_submit ftbl env dp context ibdesc param =
     (case check_ibdesc env dp ibdesc (numibs param) True of
        Inl f \<Rightarrow> Inl f
      | Inr False \<Rightarrow> Inr (- EINVAL, log_event Kfree dp, param)
      | Inr True \<Rightarrow>
          (case device_issueibcmds ftbl (log_event (Device_issueibcmds (ctx_id context)) dp)
                  context ibdesc (numibs param) (timestamp param) (flags param) of
             (result, ts, dp') \<Rightarrow>
               (let param' = param\<lparr>timestamp := ts\<rparr>
                in if result \<noteq> 0 then Inr (result, log_event Kfree dp', param')
                   else (case check_ibdesc env dp' ibdesc (numibs param) False of
                           Inl f \<Rightarrow> Inl f
                         | Inr False \<Rightarrow> Inr (- EINVAL, log_event Kfree dp', param')
                         | Inr True \<Rightarrow> Inr (0, log_event Kfree dp', param')))))"

text \<open>
  kgsl_ioctl_rb_issueibcmds. The cache maintenance at its start and end
  (kgsl_clean_cache_all, kgsl_gpu_mem_flush) changes nothing that is modelled. In the
  legacy form the request holds one buffer: its address in \<open>ibdesc_addr\<close> and its
  length in words in \<open>numibs\<close>, which is then set to 1.
\<close>

definition kgsl_ioctl_rb_issueibcmds ::
  "kgsl_functable \<Rightarrow> issueibcmds_env \<Rightarrow> kgsl_device_private \<Rightarrow> kgsl_ringbuffer_issueibcmds \<Rightarrow>
   fault + (int \<times> kgsl_device_private \<times> kgsl_ringbuffer_issueibcmds)" where
  "kgsl_ioctl_rb_issueibcmds ftbl env dp param =
     (case kgsl_find_context dp (drawctxt_id param) of
        None \<Rightarrow> Inr (- EINVAL, dp, param)
      | Some context \<Rightarrow>
          if flags param AND KGSL_CONTEXT_SUBMIT_IB_LIST env \<noteq> 0 then
            if numibs param = 0 then Inr (- EINVAL, dp, param)
            else if \<not> kzalloc_ok env then Inr (- ENOMEM, dp, param)
            else (case copy_ibdesc_from_user env (ibdesc_addr param) (numibs param) of
                    None \<Rightarrow> Inr (- EFAULT, log_event Kfree (log_event Kzalloc dp), param)
                  | Some ibdesc \<Rightarrow>
                      issueibcmds_submit ftbl env (log_event Kzalloc dp) context ibdesc param)
          else
            if \<not> kzalloc_ok env then Inr (- ENOMEM, dp, param)
            else issueibcmds_submit ftbl env (log_event Kzalloc dp) context
                   [\<lparr>ibdesc_gpuaddr = ibdesc_addr param, sizedwords = numibs param\<rparr>]
                   (param\<lparr>numibs := 1\<rparr>))"

section \<open>Request dispatch\<close>

text \<open>
  A handler gets the handle, the command, the kernel copy of the payload and the
  user memory (a handler may copy to user memory itself, as
  kgsl_ioctl_device_getproperty does), and returns its value, the handle, the payload
  and the user memory. \<open>'um\<close> is the user memory.
\<close>

type_synonym 'um kgsl_ioctl_func_t =
  "kgsl_device_private \<Rightarrow> u32 \<Rightarrow> 8 word list \<Rightarrow> 'um \<Rightarrow> int \<times> kgsl_device_private \<times> 8 word list \<times> 'um"

text \<open>
  What kgsl_ioctl takes from outside this file: the macros of \<open>linux/ioctl.h\<close>
  (\<open>_IOC_SIZE\<close> and \<open>_IOC_NR\<close> are \<open>IOC_SIZE\<close> and \<open>IOC_NR\<close> here), the two request
  codes it compares, the table \<open>kgsl_ioctl_funcs\<close> by request number (\<open>None\<close> where the
  number is behind the end of the table or the slot is empty; the request codes that
  index the table are in a header that is not under src/), the handler of the backend,
  whether \<open>kzalloc\<close> succeeds, \<open>copy_from_user\<close> (a fault is \<open>None\<close>), \<open>copy_to_user\<close>
  (the number of bytes it could not copy, and the user memory), and
  kgsl_pwrctrl_sleep.
\<close>

record 'um kgsl_ioctl_env =
  IOC_IN :: u32
  IOC_OUT :: u32
  IOC_SIZE :: "u32 \<Rightarrow> nat"
  IOC_NR :: "u32 \<Rightarrow> nat"
  IOCTL_KGSL_CMDSTREAM_FREEMEMONTIMESTAMP_OLD :: u32
  IOCTL_KGSL_CMDSTREAM_FREEMEMONTIMESTAMP :: u32
  kgsl_ioctl_funcs :: "nat \<Rightarrow> ('um kgsl_ioctl_func_t \<times> bool) option"
  device_ioctl :: "'um kgsl_ioctl_func_t"
  kzalloc_uptr_ok :: bool
  copy_from_user :: "'um \<Rightarrow> u32 \<Rightarrow> nat \<Rightarrow> 8 word list option"
  copy_to_user :: "'um \<Rightarrow> u32 \<Rightarrow> 8 word list \<Rightarrow> nat \<times> 'um"
  kgsl_pwrctrl_sleep :: "kgsl_device \<Rightarrow> int \<times> kgsl_device"

text \<open>
  kgsl_check_idle_locked. \<open>device->state & KGSL_STATE_ACTIVE\<close> tests the bit of the
  one state that is set.
\<close>

definition kgsl_check_idle_locked :: "(kgsl_device \<Rightarrow> int \<times> kgsl_device) \<Rightarrow> kgsl_device \<Rightarrow> kgsl_device" where
  "kgsl_check_idle_locked pwrctrl_sleep d =
     (if nap_allowed d \<and> state d = KGSL_STATE_ACTIVE
      then (case pwrctrl_sleep (d\<lparr>requested_state := KGSL_STATE_NAP\<rparr>) of
              (r, d') \<Rightarrow> if r \<noteq> 0 then d'\<lparr>idle_timer := True\<rparr> else d')
      else d)"

text \<open>The command after the legacy request code has been replaced.\<close>

definition ioctl_cmd :: "'um kgsl_ioctl_env \<Rightarrow> u32 \<Rightarrow> u32" where
  "ioctl_cmd env cmd =
     (if cmd = IOCTL_KGSL_CMDSTREAM_FREEMEMONTIMESTAMP_OLD env
      then IOCTL_KGSL_CMDSTREAM_FREEMEMONTIMESTAMP env else cmd)"

text \<open>
  The kernel copy of the payload, \<open>uptr\<close>: the value kgsl_ioctl returns when it cannot
  be had, or its \<open>_IOC_SIZE(cmd)\<close> bytes (none for a command without payload, where
  \<open>uptr\<close> is \<open>NULL\<close>).
\<close>

definition ioctl_copy_in :: "'um kgsl_ioctl_env \<Rightarrow> u32 \<Rightarrow> u32 \<Rightarrow> 'um \<Rightarrow> int + 8 word list" where
  "ioctl_copy_in env cmd arg um =
     (if cmd AND (IOC_IN env OR IOC_OUT env) \<noteq> 0 then
        if \<not> IOC_SIZE env cmd < 64 \<and> \<not> kzalloc_uptr_ok env then Inl (- ENOMEM)
        else if cmd AND IOC_IN env \<noteq> 0 then
          (case copy_from_user env um arg (IOC_SIZE env cmd) of
             None \<Rightarrow> Inl (- EFAULT)
           | Some bytes \<Rightarrow> Inr bytes)
        else Inr (replicate (IOC_SIZE env cmd) 0)
      else Inr [])"

text \<open>The handler and its lock flag; \<open>nr\<close> is taken from the command as it came in.\<close>

definition ioctl_lookup :: "'um kgsl_ioctl_env \<Rightarrow> u32 \<Rightarrow> 'um kgsl_ioctl_func_t \<times> bool" where
  "ioctl_lookup env cmd0 =
     (case kgsl_ioctl_funcs env (IOC_NR env cmd0) of
        Some entry \<Rightarrow> entry
      | None \<Rightarrow> (device_ioctl env, True))"

text \<open>
  kgsl_ioctl: the value returned, the handle and the user memory. With the lock
  flag the handler runs under the device mutex, after kgsl_check_suspended (a wait,
  defined outside this file) has returned.
\<close>

definition kgsl_ioctl ::
  "'um kgsl_ioctl_env \<Rightarrow> kgsl_device_private \<Rightarrow> u32 \<Rightarrow> u32 \<Rightarrow> 'um \<Rightarrow> int \<times> kgsl_device_private \<times> 'um" where
  "kgsl_ioctl env dp cmd0 arg um =
     (let cmd = ioctl_cmd env cmd0 in
      case ioctl_copy_in env cmd arg um of
        Inl ret \<Rightarrow> (ret, dp, um)
      | Inr uptr \<Rightarrow>
          (case ioctl_lookup env cmd0 of
             (func, lock) \<Rightarrow>
               (case func dp cmd uptr um of
                  (ret, dp1, uptr', um1) \<Rightarrow>
                    (let dp2 = (if lock
                                then dp1\<lparr>device := kgsl_check_idle_locked (kgsl_pwrctrl_sleep env) (device dp1)\<rparr>
                                else dp1)
                     in if ret = 0 \<and> cmd AND IOC_OUT env \<noteq> 0
                        then (case copy_to_user env um1 arg uptr' of
                                (left, um2) \<Rightarrow> (if left \<noteq> 0 then - EFAULT else ret, dp2, um2))
                        else (ret, dp2, um1)))))"

section \<open>Example states\<close>

definition mk_entry :: "u32 \<Rightarrow> u32 \<Rightarrow> nat \<Rightarrow> u32 \<Rightarrow> kgsl_mem_entry" where
  "mk_entry addr sz owner ts =
     \<lparr>memdesc = \<lparr>gpuaddr = addr, memdesc_size = sz, memdesc_priv = 0\<rparr>,
      priv = owner, free_timestamp = ts\<rparr>"

text \<open>A device just started by its first open, with nothing queued and no context.\<close>

definition idle_device :: kgsl_device where
  "idle_device =
     \<lparr>state = KGSL_STATE_ACTIVE, requested_state = KGSL_STATE_NONE, nap_allowed = True,
      active_cnt = 0, open_count = 0, suspend_gate = 0, hwaccess_gate = 0, idle_timer = False,
      memqueue = [], context_idr = [], ts_consumed = 0, ts_retired = 0, destroyed = [],
      trace = []\<rparr>"

text \<open>
  Three queued entries waiting for timestamps 3, 5 and 9 (and a fourth one, queued
  last, waiting for timestamp 2) while the hardware has retired timestamp 5.
\<close>

definition drain_example :: kgsl_device where
  "drain_example =
     idle_device\<lparr>ts_consumed := 9, ts_retired := 5,
       memqueue := [mk_entry 0x1000 0x1000 1 3, mk_entry 0x2000 0x1000 1 5,
                    mk_entry 0x3000 0x1000 2 9, mk_entry 0x4000 0x1000 2 2]\<rparr>"

text \<open>
  A handle of process 1 with two live regions, while the hardware has consumed
  timestamp 5 and retired only timestamp 3: commands are in flight.
\<close>

definition free_example :: kgsl_device_private where
  "free_example =
     \<lparr>handle = 1,
      device = idle_device\<lparr>ts_consumed := 5, ts_retired := 3\<rparr>,
      process_priv = \<lparr>pid = 1, refcnt = 1, mem_list = [mk_entry 0x1000 0x1000 1 0, mk_entry 0x2000 0x1000 1 0]\<rparr>\<rparr>"

text \<open>
  A backend that does what its callers expect: its destroy leaves no payload, its
  create stores one, and an issue consumes one more timestamp.
\<close>

definition example_ftbl :: kgsl_functable where
  "example_ftbl =
     \<lparr>device_stop = (\<lambda>d. 0),
      device_drawctxt_create = (\<lambda>fl c. (0, Some (ctx_id c))),
      device_drawctxt_destroy = (\<lambda>c. (0, None)),
      device_issueibcmds = (\<lambda>dp c ibs n ts fl.
         (0, ts_consumed (device dp) + 1,
          dp\<lparr>device := (device dp)\<lparr>ts_consumed := ts_consumed (device dp) + 1\<rparr>\<rparr>))\<rparr>"

text \<open>
  The last open handle of process 1: it owns the contexts 0 and 2, handle 2 owns
  context 1; the queue holds two entries of process 1 and one of process 2.
\<close>

definition close_example :: kgsl_device_private where
  "close_example =
     \<lparr>handle = 1,
      device = idle_device
        \<lparr>context_idr := [\<lparr>ctx_id = 0, dev_priv = 1, devctxt = Some 10\<rparr>,
                         \<lparr>ctx_id = 1, dev_priv = 2, devctxt = Some 11\<rparr>,
                         \<lparr>ctx_id = 2, dev_priv = 1, devctxt = Some 12\<rparr>],
         memqueue := [mk_entry 0x1000 0x1000 1 7, mk_entry 0x2000 0x1000 2 8,
                      mk_entry 0x3000 0x1000 1 9]\<rparr>,
      process_priv = \<lparr>pid = 1, refcnt = 2, mem_list = []\<rparr>\<rparr>"

text \<open>
  A handle that owns context 0, in a process with one live region, \<open>[0x1000, 0x2000)\<close>;
  the descriptor array of the user, at \<open>0x8000\<close>, holds one descriptor.
\<close>

definition issue_example :: kgsl_device_private where
  "issue_example =
     \<lparr>handle = 1,
      device = idle_device\<lparr>context_idr := [\<lparr>ctx_id = 0, dev_priv = 1, devctxt = Some 10\<rparr>]\<rparr>,
      process_priv = \<lparr>pid = 1, refcnt = 1, mem_list = [mk_entry 0x1000 0x1000 1 0]\<rparr>\<rparr>"

definition issue_env_example :: issueibcmds_env where
  "issue_env_example =
     \<lparr>KGSL_CONTEXT_SUBMIT_IB_LIST = 4,
      kzalloc_ok = True,
      copy_ibdesc_from_user = (\<lambda>addr n.
         if addr = 0x8000 \<and> n = 1 then Some [\<lparr>ibdesc_gpuaddr = 0x1800, sizedwords = 0x3FFFFC00\<rparr>]
         else None),
      kgsl_cffdump_parse_ibs = (\<lambda>m addr n. True)\<rparr>"

text \<open>
  The handle of \<open>issue_example\<close> after one command buffer has been issued and
  before the hardware has retired it.
\<close>

definition in_flight_example :: kgsl_device_private where
  "in_flight_example =
     issue_example\<lparr>device := (device issue_example)
       \<lparr>ts_consumed := 1, trace := [Kzalloc, Device_issueibcmds 0, Kfree]\<rparr>\<rparr>"

text \<open>
  A dispatcher over a user memory that is the caller's payload buffer, with the usual
  layout of a command (direction in the top bits, size from bit 16, number in the low
  byte) and two handlers that both change the kernel copy of the payload: number
  \<open>0x11\<close> succeeds, number \<open>0x21\<close> fails.
\<close>

definition ioctl_env_example :: "8 word list kgsl_ioctl_env" where
  "ioctl_env_example =
     \<lparr>IOC_IN = 0x40000000,
      IOC_OUT = 0x80000000,
      IOC_SIZE = (\<lambda>cmd. unat (drop_bit 16 cmd AND 0x3FFF)),
      IOC_NR = (\<lambda>cmd. unat (cmd AND 0xFF)),
      IOCTL_KGSL_CMDSTREAM_FREEMEMONTIMESTAMP_OLD = 0x800C0912,
      IOCTL_KGSL_CMDSTREAM_FREEMEMONTIMESTAMP = 0x400C0912,
      kgsl_ioctl_funcs = (\<lambda>nr.
         if nr = 0x11 then Some ((\<lambda>dp cmd uptr um. (0, dp, map (\<lambda>b. b + 1) uptr, um)), True)
         else if nr = 0x21 then Some ((\<lambda>dp cmd uptr um. (- EINVAL, dp, map (\<lambda>b. b + 1) uptr, um)), False)
         else None),
      device_ioctl = (\<lambda>dp cmd uptr um. (- EINVAL, dp, uptr, um)),
      kzalloc_uptr_ok = True,
      copy_from_user = (\<lambda>um addr n. if n \<le> length um then Some (take n um) else None),
      copy_to_user = (\<lambda>um addr bytes. (0, bytes @ drop (length bytes) um)),
      kgsl_pwrctrl_sleep = (\<lambda>d. (0, d))\<rparr>"

text \<open>
  A backend wait that gives up after the whole timeout it was given and answers
  \<open>-ETIMEDOUT\<close>, while the hardware has retired timestamp 5.
\<close>

definition timing_out_wait :: "kgsl_device \<Rightarrow> u32 \<Rightarrow> u32 \<Rightarrow> int \<times> kgsl_device \<times> nat" where
  "timing_out_wait d ts tmo = (- 110, d\<lparr>ts_retired := 5\<rparr>, unat tmo)"

section \<open>Properties of the deferred-free queue\<close>

lemma memqueue_drain_loop_takeWhile:
  "memqueue_drain_loop cmp ts q =
     (takeWhile (\<lambda>e. cmp ts (free_timestamp e)) q, dropWhile (\<lambda>e. cmp ts (free_timestamp e)) q)"
  by (induction q) auto

lemma memqueue_drain_loop_stops:
  "list_all (\<lambda>e. cmp ts (free_timestamp e)) pre \<Longrightarrow> \<not> cmp ts (free_timestamp e) \<Longrightarrow>
   memqueue_drain_loop cmp ts (pre @ e # later) = (pre, e # later)"
  by (induction pre) auto

lemma takeWhile_dropWhile_Nil: "takeWhile P (dropWhile P xs) = []"
  by (induction xs) auto

lemma kgsl_memqueue_drain_idem:
  "kgsl_memqueue_drain cmp (kgsl_memqueue_drain cmp d) = kgsl_memqueue_drain cmp d"
  by (simp add: kgsl_memqueue_drain_def memqueue_drain_loop_takeWhile
      device_cmdstream_readtimestamp_def dropWhile_idem takeWhile_dropWhile_Nil Let_def)

text \<open>
  C1. For every queue, every comparison \<open>cmp\<close> and every retired timestamp, the drain
  unlinks and destroys a prefix of the queue, in queue order: there is a length \<open>n\<close>
  such that the first \<open>n\<close> entries are appended to the destroyed ones and the queue
  becomes the rest, unchanged; every entry of that prefix has been reached; the prefix
  is the longest one, since the entry behind it (when there is one) has not been
  reached; whatever stands behind that first unreached entry has no influence on the
  outcome; and a second drain at the same timestamp changes nothing.
\<close>

theorem kgsl_memqueue_drain_reached_prefix:
  "\<exists>n \<le> length (memqueue d).
     kgsl_memqueue_drain cmp d =
       d\<lparr>memqueue := drop n (memqueue d), destroyed := destroyed d @ take n (memqueue d)\<rparr> \<and>
     (\<forall>e \<in> set (take n (memqueue d)). cmp (ts_retired d) (free_timestamp e)) \<and>
     (n < length (memqueue d) \<longrightarrow>
        \<not> cmp (ts_retired d) (free_timestamp (memqueue d ! n)) \<and>
        (\<forall>later. memqueue_drain_loop cmp (ts_retired d) (take n (memqueue d) @ memqueue d ! n # later) =
                    (take n (memqueue d), memqueue d ! n # later))) \<and>
     kgsl_memqueue_drain cmp (kgsl_memqueue_drain cmp d) = kgsl_memqueue_drain cmp d"
proof -
  let ?P = "\<lambda>e. cmp (ts_retired d) (free_timestamp e)"
  let ?q = "memqueue d"
  let ?n = "length (takeWhile ?P ?q)"
  have n_le: "?n \<le> length ?q"
    by (rule length_takeWhile_le)
  have tk: "takeWhile ?P ?q = take ?n ?q"
    by (rule takeWhile_eq_take)
  have dr: "dropWhile ?P ?q = drop ?n ?q"
    by (rule dropWhile_eq_drop)
  have eq: "kgsl_memqueue_drain cmp d =
      d\<lparr>memqueue := drop ?n ?q, destroyed := destroyed d @ take ?n ?q\<rparr>"
    using tk dr
    by (simp add: kgsl_memqueue_drain_def memqueue_drain_loop_takeWhile
        device_cmdstream_readtimestamp_def Let_def)
  have reached: "\<forall>e \<in> set (take ?n ?q). ?P e"
    using set_takeWhileD [of _ ?P ?q] tk by auto
  have stop: "\<not> ?P (?q ! ?n)" if "?n < length ?q"
    using that by (rule nth_length_takeWhile)
  have all_pre: "list_all ?P (take ?n ?q)"
    unfolding list_all_iff by (rule reached)
  have blind: "memqueue_drain_loop cmp (ts_retired d) (take ?n ?q @ ?q ! ?n # later) =
      (take ?n ?q, ?q ! ?n # later)" if "?n < length ?q" for later
    by (rule memqueue_drain_loop_stops [of cmp "ts_retired d" "take ?n ?q" "?q ! ?n" later,
          OF all_pre stop [OF that]])
  show ?thesis
  proof (intro exI [of _ ?n] conjI impI allI)
    show "?n \<le> length ?q" by (rule n_le)
    show "kgsl_memqueue_drain cmp d =
        d\<lparr>memqueue := drop ?n ?q, destroyed := destroyed d @ take ?n ?q\<rparr>" by (rule eq)
    show "\<forall>e \<in> set (take ?n ?q). ?P e" by (rule reached)
    show "\<not> ?P (?q ! ?n)" if "?n < length ?q" using that by (rule stop)
    show "memqueue_drain_loop cmp (ts_retired d) (take ?n ?q @ ?q ! ?n # later) =
        (take ?n ?q, ?q ! ?n # later)" if "?n < length ?q" for later
      using that by (rule blind)
    show "kgsl_memqueue_drain cmp (kgsl_memqueue_drain cmp d) = kgsl_memqueue_drain cmp d"
      by (rule kgsl_memqueue_drain_idem)
  qed
qed

text \<open>
  The theorem at \<open>drain_example\<close>: the two entries waiting for 3 and 5 are destroyed,
  the entry waiting for 9 stops the drain, and the entry behind it stays queued although
  its timestamp 2 has been reached.
\<close>

theorem kgsl_memqueue_drain_reached_prefix_witness:
  "memqueue (kgsl_memqueue_drain timestamp_cmp drain_example) =
     [mk_entry 0x3000 0x1000 2 9, mk_entry 0x4000 0x1000 2 2] \<and>
   destroyed (kgsl_memqueue_drain timestamp_cmp drain_example) =
     [mk_entry 0x1000 0x1000 1 3, mk_entry 0x2000 0x1000 1 5] \<and>
   timestamp_cmp (ts_retired drain_example) (free_timestamp (mk_entry 0x2000 0x1000 1 5)) \<and>
   \<not> timestamp_cmp (ts_retired drain_example) (free_timestamp (memqueue drain_example ! 2)) \<and>
   timestamp_cmp (ts_retired drain_example) (free_timestamp (memqueue drain_example ! 3))"
proof -
  obtain n where n: "n \<le> length (memqueue drain_example)"
    "kgsl_memqueue_drain timestamp_cmp drain_example =
       drain_example\<lparr>memqueue := drop n (memqueue drain_example),
         destroyed := destroyed drain_example @ take n (memqueue drain_example)\<rparr>"
    "n < length (memqueue drain_example) \<longrightarrow>
       \<not> timestamp_cmp (ts_retired drain_example) (free_timestamp (memqueue drain_example ! n))"
    "\<forall>e \<in> set (take n (memqueue drain_example)).
       timestamp_cmp (ts_retired drain_example) (free_timestamp e)"
    using kgsl_memqueue_drain_reached_prefix [of drain_example timestamp_cmp] by blast
  have q: "memqueue drain_example =
      [mk_entry 0x1000 0x1000 1 3, mk_entry 0x2000 0x1000 1 5,
       mk_entry 0x3000 0x1000 2 9, mk_entry 0x4000 0x1000 2 2]"
    and ts: "ts_retired drain_example = 5" and none: "destroyed drain_example = []"
    by (simp_all add: drain_example_def idle_device_def)
  have c3: "timestamp_cmp 5 3" and c5: "timestamp_cmp 5 5" and c9: "\<not> timestamp_cmp 5 9"
    and c2: "timestamp_cmp 5 2"
    by (simp_all add: timestamp_cmp_def)
  have "n \<noteq> 0"
  proof
    assume "n = 0"
    with n(3) c3 show False by (simp add: q ts mk_entry_def)
  qed
  moreover have "n \<noteq> 1"
  proof
    assume "n = 1"
    with n(3) c5 show False by (simp add: q ts mk_entry_def)
  qed
  moreover have "n \<noteq> 3"
  proof
    assume "n = 3"
    with n(4) c9 show False by (simp add: q ts mk_entry_def numeral_3_eq_3)
  qed
  moreover have "n \<noteq> 4"
  proof
    assume "n = 4"
    with n(4) c9 show False by (simp add: q ts mk_entry_def)
  qed
  moreover have "n \<le> 4"
    using n(1) by (simp add: q)
  ultimately have "n = 2"
    by arith
  then show ?thesis
    using n(2) c5 c9 c2 by (simp add: q ts none mk_entry_def)
qed

section \<open>Properties of the memory region registry\<close>

lemma kgsl_sharedmem_find_region_Some:
  "kgsl_sharedmem_find_region l addr sz = Some e \<Longrightarrow>
   e \<in> set l \<and> gpuaddr (memdesc e) \<le> addr \<and>
   addr + sz \<le> gpuaddr (memdesc e) + memdesc_size (memdesc e)"
  by (induction l) (auto split: if_splits)

lemma kgsl_sharedmem_find_region_None:
  "kgsl_sharedmem_find_region l addr sz = None \<longleftrightarrow>
   (\<forall>e \<in> set l. \<not> (gpuaddr (memdesc e) \<le> addr \<and>
      addr + sz \<le> gpuaddr (memdesc e) + memdesc_size (memdesc e)))"
  by (induction l) (auto split: if_splits)

lemma word_test_is_region_contains:
  "unat addr + unat sz < 2 ^ 32 \<Longrightarrow>
   unat (gpuaddr (memdesc e)) + unat (memdesc_size (memdesc e)) < 2 ^ 32 \<Longrightarrow>
   (gpuaddr (memdesc e) \<le> addr \<and> addr + sz \<le> gpuaddr (memdesc e) + memdesc_size (memdesc e))
     = region_contains e (unat addr) (unat sz)"
  unfolding region_contains_def word_le_nat_alt
  by (simp add: unat_word_ariths)

text \<open>
  Where neither 32-bit sum wraps, kgsl_sharedmem_find_region does what C7 says: an
  entry it returns is registered and contains the extent, and it returns none exactly
  when no registered entry contains the extent.
\<close>

lemma kgsl_sharedmem_find_region_no_wrap:
  assumes "unat addr + unat sz < 2 ^ 32"
    and "\<forall>e \<in> set l. unat (gpuaddr (memdesc e)) + unat (memdesc_size (memdesc e)) < 2 ^ 32"
  shows "(kgsl_sharedmem_find_region l addr sz = Some e \<longrightarrow>
            e \<in> set l \<and> region_contains e (unat addr) (unat sz)) \<and>
         (kgsl_sharedmem_find_region l addr sz = None \<longleftrightarrow>
            (\<forall>e \<in> set l. \<not> region_contains e (unat addr) (unat sz)))"
proof (intro conjI impI)
  assume found: "kgsl_sharedmem_find_region l addr sz = Some e"
  then have e: "e \<in> set l" "gpuaddr (memdesc e) \<le> addr \<and>
      addr + sz \<le> gpuaddr (memdesc e) + memdesc_size (memdesc e)"
    using kgsl_sharedmem_find_region_Some [OF found] by simp_all
  show "e \<in> set l" by (rule e(1))
  show "region_contains e (unat addr) (unat sz)"
    using word_test_is_region_contains [of addr sz e] assms e by simp
next
  show "kgsl_sharedmem_find_region l addr sz = None \<longleftrightarrow>
      (\<forall>e \<in> set l. \<not> region_contains e (unat addr) (unat sz))"
    unfolding kgsl_sharedmem_find_region_None
    using word_test_is_region_contains [of addr sz] assms by blast
qed

text \<open>
  C7. The claim fails where the 32-bit sum \<open>gpuaddr + size\<close> wraps. One region is
  registered, \<open>[0x1000, 0x2000)\<close>. The request asks for \<open>0xFFFFF000\<close> bytes at
  \<open>0x1800\<close>: that extent ends far behind the region, yet the sum wraps to \<open>0x800\<close>
  and kgsl_sharedmem_find_region returns the region.
\<close>

theorem kgsl_sharedmem_find_region_wraps:
  "kgsl_sharedmem_find_region [mk_entry 0x1000 0x1000 1 0] 0x1800 0xFFFFF000 =
     Some (mk_entry 0x1000 0x1000 1 0) \<and>
   \<not> region_contains (mk_entry 0x1000 0x1000 1 0) (unat (0x1800 :: u32)) (unat (0xFFFFF000 :: u32))"
  by (simp add: mk_entry_def region_contains_def)

lemma kgsl_sharedmem_find_Some:
  "kgsl_sharedmem_find l addr = Some e \<Longrightarrow> e \<in> set l \<and> gpuaddr (memdesc e) = addr"
  by (induction l) (auto split: if_splits)

lemma kgsl_sharedmem_find_None:
  "kgsl_sharedmem_find l addr = None \<longleftrightarrow> (\<forall>e \<in> set l. gpuaddr (memdesc e) \<noteq> addr)"
  by (induction l) auto

lemma kgsl_sharedmem_find_remove1:
  "distinct (map (\<lambda>e. gpuaddr (memdesc e)) l) \<Longrightarrow> kgsl_sharedmem_find l addr = Some e \<Longrightarrow>
   kgsl_sharedmem_find (remove1 e l) addr = None"
proof (induction l)
  case Nil
  then show ?case by simp
next
  case (Cons x l)
  show ?case
  proof (cases "gpuaddr (memdesc x) = addr")
    case True
    then have "e = x" using Cons.prems(2) by simp
    moreover have "\<forall>y \<in> set l. gpuaddr (memdesc y) \<noteq> addr"
      using Cons.prems(1) True by (auto simp: image_iff)
    ultimately show ?thesis by (simp add: kgsl_sharedmem_find_None)
  next
    case False
    then have f: "kgsl_sharedmem_find l addr = Some e" using Cons.prems(2) by simp
    then have "gpuaddr (memdesc e) = addr" using kgsl_sharedmem_find_Some by blast
    then have "x \<noteq> e" using False by auto
    then show ?thesis using Cons.IH [OF _ f] Cons.prems(1) False by simp
  qed
qed

text \<open>
  C2, as the code has it. kgsl_ioctl_sharedmem_free looks the address up among the live
  regions of the caller's process. If a region starts exactly there, the first such
  entry is unlinked and handed to kgsl_destroy_mem_entry at once, whatever the
  timestamps are, and the request returns 0. If no region starts there, the request
  returns \<open>-EINVAL\<close> and nothing changes. The deferred-free queue is never touched.
  Where the live regions have distinct addresses, a second free of the same address
  returns \<open>-EINVAL\<close> and changes nothing.
\<close>

theorem kgsl_ioctl_sharedmem_free_destroys_at_once:
  "(\<forall>entry. kgsl_sharedmem_find (mem_list (process_priv dp)) addr = Some entry \<longrightarrow>
      entry \<in> set (mem_list (process_priv dp)) \<and> gpuaddr (memdesc entry) = addr \<and>
      kgsl_ioctl_sharedmem_free dp addr =
        (0, dp\<lparr>process_priv := (process_priv dp)\<lparr>mem_list := remove1 entry (mem_list (process_priv dp))\<rparr>,
               device := (device dp)\<lparr>destroyed := destroyed (device dp) @ [entry]\<rparr>\<rparr>)) \<and>
   ((\<exists>e \<in> set (mem_list (process_priv dp)). gpuaddr (memdesc e) = addr) \<longrightarrow>
      kgsl_sharedmem_find (mem_list (process_priv dp)) addr \<noteq> None) \<and>
   ((\<forall>e \<in> set (mem_list (process_priv dp)). gpuaddr (memdesc e) \<noteq> addr) \<longrightarrow>
      kgsl_ioctl_sharedmem_free dp addr = (- EINVAL, dp)) \<and>
   memqueue (device (snd (kgsl_ioctl_sharedmem_free dp addr))) = memqueue (device dp) \<and>
   (distinct (map (\<lambda>e. gpuaddr (memdesc e)) (mem_list (process_priv dp))) \<longrightarrow>
      kgsl_ioctl_sharedmem_free (snd (kgsl_ioctl_sharedmem_free dp addr)) addr =
        (- EINVAL, snd (kgsl_ioctl_sharedmem_free dp addr)))"
proof (intro conjI allI impI)
  fix entry
  assume f: "kgsl_sharedmem_find (mem_list (process_priv dp)) addr = Some entry"
  show "entry \<in> set (mem_list (process_priv dp))" and "gpuaddr (memdesc entry) = addr"
    using kgsl_sharedmem_find_Some [OF f] by simp_all
  show "kgsl_ioctl_sharedmem_free dp addr =
        (0, dp\<lparr>process_priv := (process_priv dp)\<lparr>mem_list := remove1 entry (mem_list (process_priv dp))\<rparr>,
               device := (device dp)\<lparr>destroyed := destroyed (device dp) @ [entry]\<rparr>\<rparr>)"
    using f by (simp add: kgsl_ioctl_sharedmem_free_def kgsl_destroy_mem_entry_def Let_def)
next
  assume "\<exists>e \<in> set (mem_list (process_priv dp)). gpuaddr (memdesc e) = addr"
  then show "kgsl_sharedmem_find (mem_list (process_priv dp)) addr \<noteq> None"
    by (simp add: kgsl_sharedmem_find_None)
next
  assume "\<forall>e \<in> set (mem_list (process_priv dp)). gpuaddr (memdesc e) \<noteq> addr"
  then have "kgsl_sharedmem_find (mem_list (process_priv dp)) addr = None"
    by (simp add: kgsl_sharedmem_find_None)
  then show "kgsl_ioctl_sharedmem_free dp addr = (- EINVAL, dp)"
    by (simp add: kgsl_ioctl_sharedmem_free_def Let_def)
next
  show "memqueue (device (snd (kgsl_ioctl_sharedmem_free dp addr))) = memqueue (device dp)"
    by (simp add: kgsl_ioctl_sharedmem_free_def kgsl_destroy_mem_entry_def Let_def
        split: option.splits)
next
  assume dist: "distinct (map (\<lambda>e. gpuaddr (memdesc e)) (mem_list (process_priv dp)))"
  show "kgsl_ioctl_sharedmem_free (snd (kgsl_ioctl_sharedmem_free dp addr)) addr =
        (- EINVAL, snd (kgsl_ioctl_sharedmem_free dp addr))"
  proof (cases "kgsl_sharedmem_find (mem_list (process_priv dp)) addr")
    case None
    then show ?thesis by (simp add: kgsl_ioctl_sharedmem_free_def Let_def)
  next
    case (Some entry)
    have "kgsl_sharedmem_find (remove1 entry (mem_list (process_priv dp))) addr = None"
      using kgsl_sharedmem_find_remove1 [OF dist Some] .
    then show ?thesis using Some
      by (simp add: kgsl_ioctl_sharedmem_free_def Let_def)
  qed
qed

text \<open>
  C2 as stated fails: the claim has the region deferred when an immediate release is
  not safe. The handle of \<open>issue_example\<close> issues a command buffer that covers its
  region \<open>[0x1000, 0x2000)\<close> and gets timestamp 1; the hardware has retired
  timestamp 0, so timestamp 1 has not been reached. The free of \<open>0x1000\<close> that follows
  destroys the region at once; nothing is queued.
\<close>

theorem kgsl_ioctl_sharedmem_free_never_defers:
  "kgsl_ioctl_rb_issueibcmds example_ftbl issue_env_example issue_example
     \<lparr>drawctxt_id = 0, ibdesc_addr = 0x1000, numibs = 0x400, timestamp = 0, flags = 0\<rparr> =
     Inr (0, in_flight_example,
          \<lparr>drawctxt_id = 0, ibdesc_addr = 0x1000, numibs = 1, timestamp = 1, flags = 0\<rparr>) \<and>
   ts_retired (device in_flight_example) = 0 \<and>
   \<not> timestamp_cmp 0 1 \<and>
   kgsl_ioctl_sharedmem_free in_flight_example 0x1000 =
     (0, in_flight_example
           \<lparr>process_priv := (process_priv in_flight_example)\<lparr>mem_list := []\<rparr>,
            device := (device in_flight_example)\<lparr>destroyed := [mk_entry 0x1000 0x1000 1 0]\<rparr>\<rparr>) \<and>
   memqueue (device (snd (kgsl_ioctl_sharedmem_free in_flight_example 0x1000))) = []"
  by (simp add: in_flight_example_def issue_example_def issue_env_example_def example_ftbl_def
      idle_device_def mk_entry_def kgsl_ioctl_rb_issueibcmds_def kgsl_find_context_def
      issueibcmds_submit_def check_ibdesc_def log_event_def timestamp_cmp_def
      kgsl_ioctl_sharedmem_free_def kgsl_destroy_mem_entry_def Let_def)

text \<open>
  The theorem at \<open>free_example\<close>: freeing \<open>0x2000\<close> succeeds, freeing it again fails,
  and freeing \<open>0x3000\<close>, where no region starts, fails.
\<close>

theorem kgsl_ioctl_sharedmem_free_destroys_at_once_witness:
  "kgsl_sharedmem_find (mem_list (process_priv free_example)) 0x2000 = Some (mk_entry 0x2000 0x1000 1 0) \<and>
   kgsl_ioctl_sharedmem_free free_example 0x2000 =
     (0, free_example\<lparr>process_priv := (process_priv free_example)\<lparr>mem_list := [mk_entry 0x1000 0x1000 1 0]\<rparr>,
           device := (device free_example)\<lparr>destroyed := [mk_entry 0x2000 0x1000 1 0]\<rparr>\<rparr>) \<and>
   kgsl_ioctl_sharedmem_free free_example 0x3000 = (- EINVAL, free_example) \<and>
   distinct (map (\<lambda>e. gpuaddr (memdesc e)) (mem_list (process_priv free_example))) \<and>
   kgsl_ioctl_sharedmem_free (snd (kgsl_ioctl_sharedmem_free free_example 0x2000)) 0x2000 =
        (- EINVAL, snd (kgsl_ioctl_sharedmem_free free_example 0x2000))"
proof -
  have f: "kgsl_sharedmem_find (mem_list (process_priv free_example)) 0x2000 = Some (mk_entry 0x2000 0x1000 1 0)"
    by (simp add: free_example_def mk_entry_def)
  have n: "\<forall>e \<in> set (mem_list (process_priv free_example)). gpuaddr (memdesc e) \<noteq> 0x3000"
    by (simp add: free_example_def mk_entry_def)
  have d: "distinct (map (\<lambda>e. gpuaddr (memdesc e)) (mem_list (process_priv free_example)))"
    by (simp add: free_example_def mk_entry_def)
  have r: "remove1 (mk_entry 0x2000 0x1000 1 0) (mem_list (process_priv free_example)) = [mk_entry 0x1000 0x1000 1 0]"
    and e: "destroyed (device free_example) = []"
    by (simp_all add: free_example_def mk_entry_def idle_device_def)
  note at_2000 = kgsl_ioctl_sharedmem_free_destroys_at_once [of free_example "0x2000"]
  note at_3000 = kgsl_ioctl_sharedmem_free_destroys_at_once [of free_example "0x3000"]
  have 1: "kgsl_ioctl_sharedmem_free free_example 0x2000 =
     (0, free_example\<lparr>process_priv := (process_priv free_example)\<lparr>mem_list := [mk_entry 0x1000 0x1000 1 0]\<rparr>,
           device := (device free_example)\<lparr>destroyed := [mk_entry 0x2000 0x1000 1 0]\<rparr>\<rparr>)"
    using at_2000 f r e by simp
  have 2: "kgsl_ioctl_sharedmem_free free_example 0x3000 = (- EINVAL, free_example)"
    using at_3000 n by blast
  have 3: "kgsl_ioctl_sharedmem_free (snd (kgsl_ioctl_sharedmem_free free_example 0x2000)) 0x2000 =
        (- EINVAL, snd (kgsl_ioctl_sharedmem_free free_example 0x2000))"
    using at_2000 d by blast
  show ?thesis
    using f 1 2 3 d by blast
qed

section \<open>Properties of suspend and of the timestamp wait\<close>

lemma kgsl_suspend_device_not_blocked:
  "active_cnt d = 0 \<or> suspend_gate d \<noteq> 0 \<Longrightarrow> kgsl_suspend_device d \<noteq> None"
  by (auto simp: kgsl_suspend_device_def wait_for_completion_def Let_def split: kgsl_state.splits)

lemma kgsl_suspend_device_state:
  "kgsl_suspend_device d = Some (go, d') \<Longrightarrow>
     (state d = KGSL_STATE_INIT \<longrightarrow> go \<and> state d' = KGSL_STATE_INIT) \<and>
     (state d = KGSL_STATE_NONE \<or> state d = KGSL_STATE_SUSPEND \<longrightarrow> \<not> go \<and> state d' = state d) \<and>
     (state d = KGSL_STATE_ACTIVE \<or> state d = KGSL_STATE_NAP \<or> state d = KGSL_STATE_SLEEP \<longrightarrow>
        go \<and> state d' = KGSL_STATE_SUSPEND)"
  by (auto simp: kgsl_suspend_device_def wait_for_completion_def suspend_stop_def Let_def
      split: kgsl_state.splits if_splits)

text \<open>
  C3, as the code has it. Take a suspend of one device that does not block (no waiter
  is counted, or the gate has been completed). From \<open>Init\<close> the request is accepted:
  kgsl_suspend returns 0 and the device stays in \<open>Init\<close>, so \<open>Suspend\<close> is not entered.
  From \<open>NONE\<close> or \<open>Suspend\<close>, the states the \<open>default\<close> case of the switch is left
  with, kgsl_suspend returns \<open>-EINVAL\<close> and the device state is what it was.
\<close>

theorem kgsl_suspend_init_accepted_others_rejected:
  assumes "active_cnt d = 0 \<or> suspend_gate d \<noteq> 0"
  shows "(state d = KGSL_STATE_INIT \<longrightarrow>
            (\<exists>d'. kgsl_suspend [Some d] = Some (0, [Some d']) \<and> state d' = KGSL_STATE_INIT)) \<and>
         (state d = KGSL_STATE_NONE \<or> state d = KGSL_STATE_SUSPEND \<longrightarrow>
            (\<exists>d'. kgsl_suspend [Some d] = Some (- EINVAL, [Some d']) \<and> state d' = state d))"
proof -
  obtain go d' where r: "kgsl_suspend_device d = Some (go, d')"
    using kgsl_suspend_device_not_blocked [OF assms] by auto
  note st = kgsl_suspend_device_state [OF r]
  show ?thesis
  proof (intro conjI impI)
    assume "state d = KGSL_STATE_INIT"
    with st have "go" "state d' = KGSL_STATE_INIT" by simp_all
    then show "\<exists>d'. kgsl_suspend [Some d] = Some (0, [Some d']) \<and> state d' = KGSL_STATE_INIT"
      using r by simp
  next
    assume "state d = KGSL_STATE_NONE \<or> state d = KGSL_STATE_SUSPEND"
    with st have "\<not> go" "state d' = state d" by simp_all
    then show "\<exists>d'. kgsl_suspend [Some d] = Some (- EINVAL, [Some d']) \<and> state d' = state d"
      using r by simp
  qed
qed

text \<open>
  The theorem at a device in \<open>Init\<close> and at a device in \<open>Suspend\<close>.
\<close>

theorem kgsl_suspend_init_accepted_others_rejected_witness:
  "(\<exists>d'. kgsl_suspend [Some (idle_device\<lparr>state := KGSL_STATE_INIT\<rparr>)] = Some (0, [Some d']) \<and>
         state d' = KGSL_STATE_INIT) \<and>
   (\<exists>d'. kgsl_suspend [Some (idle_device\<lparr>state := KGSL_STATE_SUSPEND\<rparr>)] = Some (- EINVAL, [Some d']) \<and>
         state d' = KGSL_STATE_SUSPEND)"
proof -
  have a: "active_cnt (idle_device\<lparr>state := KGSL_STATE_INIT\<rparr>) = 0 \<or>
      suspend_gate (idle_device\<lparr>state := KGSL_STATE_INIT\<rparr>) \<noteq> 0"
    and b: "active_cnt (idle_device\<lparr>state := KGSL_STATE_SUSPEND\<rparr>) = 0 \<or>
      suspend_gate (idle_device\<lparr>state := KGSL_STATE_SUSPEND\<rparr>) \<noteq> 0"
    by (simp_all add: idle_device_def)
  show ?thesis
    using kgsl_suspend_init_accepted_others_rejected [OF a]
      kgsl_suspend_init_accepted_others_rejected [OF b]
    by simp
qed

text \<open>
  C3 as stated fails: a suspend requested in \<open>Init\<close> is not an error. kgsl_suspend
  returns 0 for a device in \<open>Init\<close>, and leaves it as it was.
\<close>

theorem kgsl_suspend_from_init_returns_success:
  "kgsl_suspend [Some (idle_device\<lparr>state := KGSL_STATE_INIT\<rparr>)] =
     Some (0, [Some (idle_device\<lparr>state := KGSL_STATE_INIT\<rparr>)])"
  by (simp add: idle_device_def kgsl_suspend_device_def Let_def)

text \<open>
  C4. Take a backend whose wait keeps the caller asleep no longer than the timeout
  it is given. Then for every timestamp and timeout: the backend is called with the
  timeout of the request, except that the "wait forever" value \<open>-1\<close> is replaced by
  10000 milliseconds, and the timeout left in the request is never \<open>-1\<close>; the caller
  is blocked for no longer than that timeout, so for no longer than 10000 milliseconds
  where it asked to wait forever, and never as long as \<open>0xFFFFFFFF\<close> milliseconds;
  whatever the wait returns (0 when the timestamp was reached, an error when it timed
  out), its result is the result of the request, and the deferred-free queue of the
  device as the wait left it has been drained: the reached prefix of the queue has
  been appended to the destroyed entries and the queue is what stood behind it.
\<close>

theorem kgsl_ioctl_device_waittimestamp_clamps_and_drains:
  assumes "\<forall>d' ts' tmo. snd (snd (wait d' ts' tmo)) \<le> unat tmo"
  shows "\<exists>result d2 slept.
     wait (d\<lparr>active_cnt := active_cnt d + 1\<rparr>) ts (if timeout = - 1 then 10000 else timeout)
       = (result, d2, slept) \<and>
     kgsl_ioctl_device_waittimestamp cmp wait d ts timeout =
       (result,
        d2\<lparr>memqueue := dropWhile (\<lambda>e. cmp (ts_retired d2) (free_timestamp e)) (memqueue d2),
           destroyed := destroyed d2 @
             takeWhile (\<lambda>e. cmp (ts_retired d2) (free_timestamp e)) (memqueue d2),
           active_cnt := active_cnt d2 - 1, suspend_gate := 1\<rparr>,
        (if timeout = - 1 then 10000 else timeout),
        slept) \<and>
     slept \<le> unat (if timeout = - 1 then 10000 else timeout) \<and>
     (timeout = - 1 \<longrightarrow> slept \<le> 10000) \<and>
     slept < 2 ^ 32 - 1 \<and>
     fst (snd (snd (kgsl_ioctl_device_waittimestamp cmp wait d ts timeout))) \<noteq> - 1"
proof -
  let ?tmo = "if timeout = - 1 then 10000 else timeout"
  obtain result d2 slept where w:
    "wait (d\<lparr>active_cnt := active_cnt d + 1\<rparr>) ts ?tmo = (result, d2, slept)"
    by (cases "wait (d\<lparr>active_cnt := active_cnt d + 1\<rparr>) ts ?tmo")
  have dr: "kgsl_memqueue_drain cmp d2 =
      d2\<lparr>memqueue := dropWhile (\<lambda>e. cmp (ts_retired d2) (free_timestamp e)) (memqueue d2),
         destroyed := destroyed d2 @
           takeWhile (\<lambda>e. cmp (ts_retired d2) (free_timestamp e)) (memqueue d2)\<rparr>"
    by (simp add: kgsl_memqueue_drain_def memqueue_drain_loop_takeWhile
        device_cmdstream_readtimestamp_def Let_def)
  have eq: "kgsl_ioctl_device_waittimestamp cmp wait d ts timeout =
       (result,
        d2\<lparr>memqueue := dropWhile (\<lambda>e. cmp (ts_retired d2) (free_timestamp e)) (memqueue d2),
           destroyed := destroyed d2 @
             takeWhile (\<lambda>e. cmp (ts_retired d2) (free_timestamp e)) (memqueue d2),
           active_cnt := active_cnt d2 - 1, suspend_gate := 1\<rparr>,
        ?tmo, slept)"
  proof (cases "timeout = - 1")
    case True
    with w show ?thesis
      by (simp add: kgsl_ioctl_device_waittimestamp_def MSEC_PER_SEC_def Let_def dr)
  next
    case False
    with w show ?thesis
      by (simp add: kgsl_ioctl_device_waittimestamp_def MSEC_PER_SEC_def Let_def dr)
  qed
  have bound: "slept \<le> unat ?tmo"
    using assms [rule_format, of "d\<lparr>active_cnt := active_cnt d + 1\<rparr>" ts ?tmo] w by simp
  have forever: "slept \<le> 10000" if "timeout = - 1"
    using bound that by simp
  have ne: "?tmo \<noteq> - 1"
    by simp
  have below: "unat x < 2 ^ 32 - 1" if "x \<noteq> - 1" for x :: u32
  proof -
    have m: "unat (- 1 :: u32) = 4294967295"
    proof -
      have e: "(- 1 :: u32) = 4294967295" by simp
      show ?thesis unfolding e by simp
    qed
    have "x \<le> - 1" by simp
    with that have "x < - 1" by (simp only: less_le) simp
    then have "unat x < unat (- 1 :: u32)" by (simp only: word_less_nat_alt)
    then show ?thesis unfolding m by simp
  qed
  have "unat ?tmo < 2 ^ 32 - 1"
    by (rule below [OF ne])
  with bound have finite: "slept < 2 ^ 32 - 1"
    by simp
  have left: "fst (snd (snd (kgsl_ioctl_device_waittimestamp cmp wait d ts timeout))) \<noteq> - 1"
    unfolding eq using ne by simp
  show ?thesis
    using w eq bound forever finite left by blast
qed

text \<open>
  The theorem at a request to wait forever for timestamp 9 on \<open>drain_example\<close>, with
  the backend wait that times out: the caller is blocked for 10000 milliseconds, the
  request returns the backend's error, and the two reached entries have been destroyed.
\<close>

theorem kgsl_ioctl_device_waittimestamp_clamps_and_drains_witness:
  "kgsl_ioctl_device_waittimestamp timestamp_cmp timing_out_wait drain_example 9 (- 1) =
     (- 110,
      drain_example
        \<lparr>memqueue := [mk_entry 0x3000 0x1000 2 9, mk_entry 0x4000 0x1000 2 2],
         destroyed := [mk_entry 0x1000 0x1000 1 3, mk_entry 0x2000 0x1000 1 5],
         suspend_gate := 1\<rparr>,
      10000, 10000)"
proof -
  have contract: "\<forall>d' ts' tmo. snd (snd (timing_out_wait d' ts' tmo)) \<le> unat tmo"
    by (simp add: timing_out_wait_def)
  from kgsl_ioctl_device_waittimestamp_clamps_and_drains
         [OF contract, of drain_example 9 "- 1" timestamp_cmp]
  obtain result d2 slept where r:
    "timing_out_wait (drain_example\<lparr>active_cnt := active_cnt drain_example + 1\<rparr>) 9 10000 =
       (result, d2, slept)"
    "kgsl_ioctl_device_waittimestamp timestamp_cmp timing_out_wait drain_example 9 (- 1) =
       (result,
        d2\<lparr>memqueue := dropWhile (\<lambda>e. timestamp_cmp (ts_retired d2) (free_timestamp e)) (memqueue d2),
           destroyed := destroyed d2 @
             takeWhile (\<lambda>e. timestamp_cmp (ts_retired d2) (free_timestamp e)) (memqueue d2),
           active_cnt := active_cnt d2 - 1, suspend_gate := 1\<rparr>,
        10000, slept)"
    by auto
  have c3: "timestamp_cmp 5 3" and c5: "timestamp_cmp 5 5" and c9: "\<not> timestamp_cmp 5 9"
    by (simp_all add: timestamp_cmp_def)
  from r(1) have v: "result = - 110" "slept = 10000"
    "d2 = drain_example\<lparr>active_cnt := active_cnt drain_example + 1, ts_retired := 5\<rparr>"
    by (simp_all add: timing_out_wait_def)
  show ?thesis
    unfolding r(2) v using c3 c5 c9
    by (simp add: drain_example_def idle_device_def mk_entry_def)
qed

text \<open>
  Every return from the wait completes \<open>suspend_gate\<close>, whatever the counter is then.
\<close>

lemma kgsl_ioctl_device_waittimestamp_completes_gate:
  "suspend_gate (fst (snd (kgsl_ioctl_device_waittimestamp cmp wait d ts timeout))) = 1"
  by (cases "wait (d\<lparr>active_cnt := active_cnt d + 1\<rparr>) ts (if timeout = - 1 then 10000 else timeout)")
     (auto simp: kgsl_ioctl_device_waittimestamp_def MSEC_PER_SEC_def Let_def kgsl_memqueue_drain_def
        split: prod.splits)

text \<open>
  C5. The counter is raised before the wait and lowered after it, but the gate is
  completed on every return from a wait, not only when the counter has come back to 0.
  Here one thread is still inside its wait (\<open>active_cnt = 1\<close>) while a second request
  waits and returns: the counter is back at 1, and \<open>suspend_gate\<close> is completed. A
  suspend that comes now finds the counter at 1, takes the completion, and stops the
  device while the first thread still waits.
\<close>

theorem kgsl_suspend_proceeds_with_waiter:
  "kgsl_ioctl_device_waittimestamp timestamp_cmp (\<lambda>d ts tmo. (0, d, 0)) (idle_device\<lparr>active_cnt := 1\<rparr>) 7 100 =
     (0, idle_device\<lparr>active_cnt := 1, suspend_gate := 1\<rparr>, 100, 0) \<and>
   kgsl_suspend [Some (idle_device\<lparr>active_cnt := 1, suspend_gate := 1\<rparr>)] =
     Some (0, [Some (idle_device\<lparr>active_cnt := 1, suspend_gate := 0, state := KGSL_STATE_SUSPEND,
                      trace := [Device_idle, Device_suspend_context, Device_stop]\<rparr>)])"
  by (simp add: idle_device_def kgsl_ioctl_device_waittimestamp_def kgsl_memqueue_drain_def
      device_cmdstream_readtimestamp_def kgsl_suspend_device_def wait_for_completion_def
      suspend_stop_def Let_def)

section \<open>Properties of the context table and of close\<close>

lemma idr_get_next_None:
  "idr_get_next idr next = None \<longleftrightarrow> (\<forall>x \<in> set idr. \<not> next \<le> ctx_id x)"
  by (induction idr) (auto split: option.splits if_splits)

lemma idr_remove_set_devctxt: "idr_remove (set_devctxt idr i payload) i = idr_remove idr i"
  by (induction idr) (auto simp: idr_remove_def set_devctxt_def)

lemma drawctxt_destroy_both_cleared:
  assumes "snd (device_drawctxt_destroy ftbl c) = None"
  shows "snd (drawctxt_destroy_both ftbl d c) =
     Inr (d\<lparr>context_idr := idr_remove (context_idr d) (ctx_id c),
            trace := trace d @ destroy_events (ctx_id c)\<rparr>)"
  using assms
  by (cases "device_drawctxt_destroy ftbl c")
     (simp add: drawctxt_destroy_both_def kgsl_destroy_context_def idr_remove_set_devctxt
        destroy_events_def)

lemma distinct_ctx_id_eq:
  "distinct (map ctx_id idr) \<Longrightarrow> x \<in> set idr \<Longrightarrow> c \<in> set idr \<Longrightarrow> ctx_id x = ctx_id c \<Longrightarrow> x = c"
  by (meson distinct_map inj_onD)

lemma release_contexts_result:
  "\<forall>c. snd (device_drawctxt_destroy ftbl c) = None \<Longrightarrow>
   distinct (map ctx_id (context_idr d)) \<Longrightarrow>
   \<exists>ids. release_contexts ftbl h d nxt =
           Inr (d\<lparr>context_idr := filter (\<lambda>c. \<not> (dev_priv c = h \<and> nxt \<le> ctx_id c)) (context_idr d),
                  trace := trace d @ concat (map destroy_events ids)\<rparr>) \<and>
           set ids = ctx_id ` {c \<in> set (context_idr d). dev_priv c = h \<and> nxt \<le> ctx_id c}"
proof (induction ftbl h d nxt rule: release_contexts.induct)
  case (1 ftbl h d nxt)
  let ?idr = "context_idr d"
  show ?case
  proof (cases "idr_get_next ?idr nxt")
    case None
    then have no: "\<forall>x \<in> set ?idr. \<not> nxt \<le> ctx_id x"
      by (simp add: idr_get_next_None)
    then have "filter (\<lambda>c. \<not> (dev_priv c = h \<and> nxt \<le> ctx_id c)) ?idr = ?idr"
      by (simp add: filter_id_conv)
    moreover have "ctx_id ` {c \<in> set ?idr. dev_priv c = h \<and> nxt \<le> ctx_id c} = {}"
      using no by auto
    ultimately show ?thesis
      using None by (intro exI [of _ "[]"]) (simp add: release_contexts.simps)
  next
    case (Some c)
    from idr_get_next_Some [OF Some]
    have c: "c \<in> set ?idr" "nxt \<le> ctx_id c"
      and least: "\<And>x. x \<in> set ?idr \<Longrightarrow> nxt \<le> ctx_id x \<Longrightarrow> ctx_id c \<le> ctx_id x"
      by auto
    have same: "x = c" if "x \<in> set ?idr" "ctx_id x = ctx_id c" for x
      using distinct_ctx_id_eq [OF "1.prems"(2) that(1) c(1) that(2)] .
    have later: "(Suc (ctx_id c) \<le> ctx_id x) = (nxt \<le> ctx_id x)"
      if "x \<in> set ?idr" "x \<noteq> c" for x
    proof
      assume "Suc (ctx_id c) \<le> ctx_id x"
      with c(2) show "nxt \<le> ctx_id x" by simp
    next
      assume n: "nxt \<le> ctx_id x"
      have "ctx_id x \<noteq> ctx_id c" using same that by blast
      with least [OF that(1) n] show "Suc (ctx_id c) \<le> ctx_id x" by simp
    qed
    show ?thesis
    proof (cases "dev_priv c = h")
      case True
      let ?d1 = "d\<lparr>context_idr := idr_remove ?idr (ctx_id c),
                     trace := trace d @ destroy_events (ctx_id c)\<rparr>"
      have step: "release_context ftbl h d c = Inr ?d1"
        using True drawctxt_destroy_both_cleared [of ftbl c d] "1.prems"(1)
        by (simp add: release_context_def)
      have dist1: "distinct (map ctx_id (context_idr ?d1))"
        using "1.prems"(2) by (simp add: idr_remove_def distinct_map_filter)
      from "1.IH" [OF Some step "1.prems"(1) dist1]
      obtain ids where ids:
        "release_contexts ftbl h ?d1 (ctx_id c + 1) =
           Inr (?d1\<lparr>context_idr := filter (\<lambda>x. \<not> (dev_priv x = h \<and> ctx_id c + 1 \<le> ctx_id x)) (context_idr ?d1),
                  trace := trace ?d1 @ concat (map destroy_events ids)\<rparr>)"
        "set ids = ctx_id ` {x \<in> set (context_idr ?d1). dev_priv x = h \<and> ctx_id c + 1 \<le> ctx_id x}"
        by blast
      have fl: "filter (\<lambda>x. \<not> (dev_priv x = h \<and> ctx_id c + 1 \<le> ctx_id x)) (idr_remove ?idr (ctx_id c)) =
                filter (\<lambda>x. \<not> (dev_priv x = h \<and> nxt \<le> ctx_id x)) ?idr"
        unfolding idr_remove_def filter_filter
      proof (rule filter_cong [OF refl])
        fix x assume x: "x \<in> set ?idr"
        show "(ctx_id x \<noteq> ctx_id c \<and> \<not> (dev_priv x = h \<and> ctx_id c + 1 \<le> ctx_id x)) =
              (\<not> (dev_priv x = h \<and> nxt \<le> ctx_id x))"
        proof (cases "x = c")
          case True
          then show ?thesis using \<open>dev_priv c = h\<close> c(2) by simp
        next
          case False
          then have "ctx_id x \<noteq> ctx_id c" using same x by blast
          then show ?thesis using later [OF x False] by simp
        qed
      qed
      have st: "ctx_id ` {x \<in> set ?idr. dev_priv x = h \<and> nxt \<le> ctx_id x} =
                insert (ctx_id c) (ctx_id ` {x \<in> set (idr_remove ?idr (ctx_id c)). dev_priv x = h \<and> ctx_id c + 1 \<le> ctx_id x})"
      proof (intro set_eqI iffI)
        fix i assume "i \<in> ctx_id ` {x \<in> set ?idr. dev_priv x = h \<and> nxt \<le> ctx_id x}"
        then obtain x where x: "x \<in> set ?idr" "dev_priv x = h" "nxt \<le> ctx_id x" "i = ctx_id x"
          by auto
        show "i \<in> insert (ctx_id c) (ctx_id ` {x \<in> set (idr_remove ?idr (ctx_id c)). dev_priv x = h \<and> ctx_id c + 1 \<le> ctx_id x})"
        proof (cases "x = c")
          case True
          then show ?thesis using x(4) by simp
        next
          case False
          then have "ctx_id x \<noteq> ctx_id c" using same x(1) by blast
          moreover have "ctx_id c + 1 \<le> ctx_id x" using later [OF x(1) False] x(3) by simp
          ultimately show ?thesis using x by (auto simp: idr_remove_def)
        qed
      next
        fix i assume "i \<in> insert (ctx_id c) (ctx_id ` {x \<in> set (idr_remove ?idr (ctx_id c)). dev_priv x = h \<and> ctx_id c + 1 \<le> ctx_id x})"
        then consider "i = ctx_id c"
          | x where "x \<in> set ?idr" "ctx_id x \<noteq> ctx_id c" "dev_priv x = h" "ctx_id c + 1 \<le> ctx_id x" "i = ctx_id x"
          by (auto simp: idr_remove_def)
        then show "i \<in> ctx_id ` {x \<in> set ?idr. dev_priv x = h \<and> nxt \<le> ctx_id x}"
        proof cases
          case 1
          then show ?thesis using c True by auto
        next
          case 2
          then have "nxt \<le> ctx_id x" using c(2) by simp
          then show ?thesis using 2 by auto
        qed
      qed
      show ?thesis
        apply (rule exI [of _ "ctx_id c # ids"])
        apply (subst release_contexts.simps)
        using ids fl st apply (simp add: Some step)
        done
    next
      case False
      have step: "release_context ftbl h d c = Inr d"
        using False by (simp add: release_context_def)
      from "1.IH" [OF Some step "1.prems"]
      obtain ids where ids:
        "release_contexts ftbl h d (ctx_id c + 1) =
           Inr (d\<lparr>context_idr := filter (\<lambda>x. \<not> (dev_priv x = h \<and> ctx_id c + 1 \<le> ctx_id x)) ?idr,
                  trace := trace d @ concat (map destroy_events ids)\<rparr>)"
        "set ids = ctx_id ` {x \<in> set ?idr. dev_priv x = h \<and> ctx_id c + 1 \<le> ctx_id x}"
        by blast
      have eqv: "(dev_priv x = h \<and> ctx_id c + 1 \<le> ctx_id x) = (dev_priv x = h \<and> nxt \<le> ctx_id x)"
        if "x \<in> set ?idr" for x
      proof (cases "x = c")
        case True
        then show ?thesis using False by simp
      next
        case ne: False
        show ?thesis using later [OF that ne] by simp
      qed
      have fl: "filter (\<lambda>x. \<not> (dev_priv x = h \<and> ctx_id c + 1 \<le> ctx_id x)) ?idr =
                filter (\<lambda>x. \<not> (dev_priv x = h \<and> nxt \<le> ctx_id x)) ?idr"
        by (rule filter_cong [OF refl]) (use eqv in auto)
      have st: "{x \<in> set ?idr. dev_priv x = h \<and> ctx_id c + 1 \<le> ctx_id x} =
                {x \<in> set ?idr. dev_priv x = h \<and> nxt \<le> ctx_id x}"
        using eqv by blast
      show ?thesis
        apply (rule exI [of _ ids])
        apply (subst release_contexts.simps)
        using ids fl st apply (simp add: Some step)
        done
    qed
  qed
qed

lemma memqueue_cleanup_loop_filter:
  "memqueue_cleanup_loop p q = (filter (\<lambda>e. priv e = p) q, filter (\<lambda>e. priv e \<noteq> p) q)"
  by (induction q) auto

lemma find_Some_set: "find P xs = Some x \<Longrightarrow> x \<in> set xs \<and> P x"
  by (induction xs) (auto split: if_splits)

lemma kgsl_find_context_owned:
  "kgsl_find_context dp i = Some c \<Longrightarrow>
   c \<in> set (context_idr (device dp)) \<and> ctx_id c = i \<and> dev_priv c = handle dp"
  by (auto simp: kgsl_find_context_def split: option.splits if_splits dest: find_Some_set)

lemma kgsl_release_result:
  assumes "\<forall>c. snd (device_drawctxt_destroy ftbl c) = None"
    and "distinct (map ctx_id (context_idr (device dp)))"
  shows "\<exists>ids d1.
     set ids = ctx_id ` {c \<in> set (context_idr (device dp)). dev_priv c = handle dp} \<and>
     d1 = (device dp)
       \<lparr>context_idr := filter (\<lambda>c. dev_priv c \<noteq> handle dp) (context_idr (device dp)),
        trace := trace (device dp) @ concat (map destroy_events ids) @
                 (if open_count (device dp) = 0 then [Device_stop] else []),
        open_count := open_count (device dp) - 1,
        state := (if open_count (device dp) = 0 then KGSL_STATE_INIT else state (device dp)),
        memqueue := filter (\<lambda>e. priv e \<noteq> pid (process_priv dp)) (memqueue (device dp)),
        destroyed := destroyed (device dp) @
                     filter (\<lambda>e. priv e = pid (process_priv dp)) (memqueue (device dp)) @
                     (if refcnt (process_priv dp) = 1 then mem_list (process_priv dp) else [])\<rparr> \<and>
     kgsl_release ftbl dp =
       Inr (if open_count (device dp) = 0
            then device_stop ftbl
                   ((device dp)\<lparr>context_idr := filter (\<lambda>c. dev_priv c \<noteq> handle dp) (context_idr (device dp)),
                      trace := trace (device dp) @ concat (map destroy_events ids),
                      open_count := - 1\<rparr>)
            else 0,
            d1,
            if refcnt (process_priv dp) = 1 then None
            else Some ((process_priv dp)\<lparr>refcnt := refcnt (process_priv dp) - 1\<rparr>))"
proof -
  from release_contexts_result [OF assms, of "handle dp" 0]
  obtain ids where ids:
    "release_contexts ftbl (handle dp) (device dp) 0 =
       Inr ((device dp)\<lparr>context_idr := filter (\<lambda>c. dev_priv c \<noteq> handle dp) (context_idr (device dp)),
              trace := trace (device dp) @ concat (map destroy_events ids)\<rparr>)"
    "set ids = ctx_id ` {c \<in> set (context_idr (device dp)). dev_priv c = handle dp}"
    by auto
  show ?thesis
    apply (rule exI [of _ ids])
    apply (simp add: ids kgsl_release_def Let_def kgsl_memqueue_cleanup_def
        memqueue_cleanup_loop_filter kgsl_put_process_private_def)
    done
qed

text \<open>
  C8. Take a backend whose context destroy leaves no payload, and a context table
  whose ids are distinct. Then a close returns (no \<open>BUG\<close>), and afterwards: the
  table holds exactly the contexts of the other handles, so that a find by the closing
  handle returns not-found for every id, and for each context the handle owned both
  the backend destroy and the removal from the table were called, without any request
  by the client; the queue holds exactly the entries of other processes, and every
  queued entry of the closing handle's process has been destroyed, whatever its
  timestamp; if the handle was the last one open (\<open>open_count\<close> is 0 before the
  close), the backend stop was called and the device is in \<open>Init\<close>, and otherwise
  the state is what it was.
\<close>

theorem kgsl_release_tears_down_handle:
  assumes "\<forall>c. snd (device_drawctxt_destroy ftbl c) = None"
    and "distinct (map ctx_id (context_idr (device dp)))"
  shows "\<exists>result d' private'.
     kgsl_release ftbl dp = Inr (result, d', private') \<and>
     context_idr d' = filter (\<lambda>c. dev_priv c \<noteq> handle dp) (context_idr (device dp)) \<and>
     (\<forall>i. kgsl_find_context (dp\<lparr>device := d'\<rparr>) i = None) \<and>
     (\<forall>c \<in> set (context_idr (device dp)). dev_priv c = handle dp \<longrightarrow>
        Device_drawctxt_destroy (ctx_id c) \<in> set (trace d') \<and> Idr_remove (ctx_id c) \<in> set (trace d')) \<and>
     memqueue d' = filter (\<lambda>e. priv e \<noteq> pid (process_priv dp)) (memqueue (device dp)) \<and>
     (\<forall>e \<in> set (memqueue (device dp)). priv e = pid (process_priv dp) \<longrightarrow> e \<in> set (destroyed d')) \<and>
     (open_count (device dp) = 0 \<longrightarrow>
        state d' = KGSL_STATE_INIT \<and> Device_stop \<in> set (trace d')) \<and>
     (open_count (device dp) \<noteq> 0 \<longrightarrow> state d' = state (device dp))"
proof -
  from kgsl_release_result [OF assms]
  obtain ids d1 result private' where r:
    "set ids = ctx_id ` {c \<in> set (context_idr (device dp)). dev_priv c = handle dp}"
    "d1 = (device dp)
       \<lparr>context_idr := filter (\<lambda>c. dev_priv c \<noteq> handle dp) (context_idr (device dp)),
        trace := trace (device dp) @ concat (map destroy_events ids) @
                 (if open_count (device dp) = 0 then [Device_stop] else []),
        open_count := open_count (device dp) - 1,
        state := (if open_count (device dp) = 0 then KGSL_STATE_INIT else state (device dp)),
        memqueue := filter (\<lambda>e. priv e \<noteq> pid (process_priv dp)) (memqueue (device dp)),
        destroyed := destroyed (device dp) @
                     filter (\<lambda>e. priv e = pid (process_priv dp)) (memqueue (device dp)) @
                     (if refcnt (process_priv dp) = 1 then mem_list (process_priv dp) else [])\<rparr>"
    "kgsl_release ftbl dp = Inr (result, d1, private')"
    by blast
  have idr: "context_idr d1 = filter (\<lambda>c. dev_priv c \<noteq> handle dp) (context_idr (device dp))"
    by (simp add: r(2))
  have nofind: "kgsl_find_context (dp\<lparr>device := d1\<rparr>) i = None" for i
  proof (cases "kgsl_find_context (dp\<lparr>device := d1\<rparr>) i")
    case None
    then show ?thesis .
  next
    case (Some c)
    from kgsl_find_context_owned [OF Some] have False by (auto simp: idr)
    then show ?thesis ..
  qed
  have called: "Device_drawctxt_destroy (ctx_id c) \<in> set (trace d1) \<and> Idr_remove (ctx_id c) \<in> set (trace d1)"
    if "c \<in> set (context_idr (device dp))" "dev_priv c = handle dp" for c
  proof -
    have "ctx_id c \<in> set ids" using that r(1) by auto
    then show ?thesis by (auto simp: r(2) destroy_events_def)
  qed
  show ?thesis
    apply (rule exI [of _ result], rule exI [of _ d1], rule exI [of _ private'])
    apply (intro conjI allI ballI impI)
    using r(3) idr nofind called apply (simp_all add: r(2))
    done
qed

text \<open>The theorem at \<open>close_example\<close>.\<close>

theorem kgsl_release_tears_down_handle_witness:
  "distinct (map ctx_id (context_idr (device close_example))) \<and>
   (\<exists>result d' private'.
      kgsl_release example_ftbl close_example = Inr (result, d', private') \<and>
      context_idr d' = [\<lparr>ctx_id = 1, dev_priv = 2, devctxt = Some 11\<rparr>] \<and>
      kgsl_find_context (close_example\<lparr>device := d'\<rparr>) 0 = None \<and>
      kgsl_find_context (close_example\<lparr>device := d'\<rparr>) 2 = None \<and>
      memqueue d' = [mk_entry 0x2000 0x1000 2 8] \<and>
      mk_entry 0x3000 0x1000 1 9 \<in> set (destroyed d') \<and>
      state d' = KGSL_STATE_INIT \<and> Device_stop \<in> set (trace d'))"
proof -
  have c: "\<forall>c. snd (device_drawctxt_destroy example_ftbl c) = None"
    by (simp add: example_ftbl_def)
  have d: "distinct (map ctx_id (context_idr (device close_example)))"
    by (simp add: close_example_def idle_device_def)
  have v: "context_idr (device close_example) =
      [\<lparr>ctx_id = 0, dev_priv = 1, devctxt = Some 10\<rparr>, \<lparr>ctx_id = 1, dev_priv = 2, devctxt = Some 11\<rparr>,
       \<lparr>ctx_id = 2, dev_priv = 1, devctxt = Some 12\<rparr>]"
    "memqueue (device close_example) =
      [mk_entry 0x1000 0x1000 1 7, mk_entry 0x2000 0x1000 2 8, mk_entry 0x3000 0x1000 1 9]"
    "open_count (device close_example) = 0" "handle close_example = 1"
    "pid (process_priv close_example) = 1"
    by (simp_all add: close_example_def idle_device_def)
  from kgsl_release_tears_down_handle [OF c d]
  obtain result d' private' where r:
    "kgsl_release example_ftbl close_example = Inr (result, d', private')"
    "context_idr d' = filter (\<lambda>c. dev_priv c \<noteq> handle close_example) (context_idr (device close_example))"
    "\<forall>i. kgsl_find_context (close_example\<lparr>device := d'\<rparr>) i = None"
    "memqueue d' = filter (\<lambda>e. priv e \<noteq> pid (process_priv close_example)) (memqueue (device close_example))"
    "\<forall>e \<in> set (memqueue (device close_example)). priv e = pid (process_priv close_example) \<longrightarrow> e \<in> set (destroyed d')"
    "open_count (device close_example) = 0 \<longrightarrow> state d' = KGSL_STATE_INIT \<and> Device_stop \<in> set (trace d')"
    by blast
  have "context_idr d' = [\<lparr>ctx_id = 1, dev_priv = 2, devctxt = Some 11\<rparr>]"
    using r(2) by (simp add: v)
  moreover have "memqueue d' = [mk_entry 0x2000 0x1000 2 8]"
    using r(4) by (simp add: v mk_entry_def)
  moreover have "mk_entry 0x3000 0x1000 1 9 \<in> set (destroyed d')"
    using r(5) by (simp add: v mk_entry_def)
  moreover have "state d' = KGSL_STATE_INIT \<and> Device_stop \<in> set (trace d')"
    using r(6) v(3) by simp
  ultimately show ?thesis
    using d r(1) r(3) by blast
qed

lemma kgsl_ioctl_drawctxt_destroy_cleared:
  assumes "\<forall>c. snd (device_drawctxt_destroy ftbl c) = None"
    and "kgsl_find_context dp i = Some c"
  shows "kgsl_ioctl_drawctxt_destroy ftbl dp i =
     Inr (fst (device_drawctxt_destroy ftbl c),
          (device dp)\<lparr>context_idr := idr_remove (context_idr (device dp)) i,
                      trace := trace (device dp) @ [Device_drawctxt_destroy i, Idr_remove i]\<rparr>)"
proof -
  have i: "ctx_id c = i"
    using kgsl_find_context_owned [OF assms(2)] by simp
  have "snd (device_drawctxt_destroy ftbl c) = None"
    using assms(1) by simp
  then show ?thesis
    using assms(2) i
    by (cases "device_drawctxt_destroy ftbl c")
       (simp add: kgsl_ioctl_drawctxt_destroy_def drawctxt_destroy_both_def
          kgsl_destroy_context_def idr_remove_set_devctxt)
qed

lemma kgsl_ioctl_drawctxt_create_no_BUG:
  assumes "\<forall>fl c. fst (device_drawctxt_create ftbl fl c) \<noteq> 0 \<longrightarrow>
             snd (device_drawctxt_create ftbl fl c) = None"
  shows "kgsl_ioctl_drawctxt_create ftbl alloc_ok dp fl i \<noteq> Inl BUG"
proof (cases alloc_ok)
  case False
  then show ?thesis
    by (simp add: kgsl_ioctl_drawctxt_create_def kgsl_create_context_def)
next
  case True
  let ?c = "\<lparr>ctx_id = idr_get_new (context_idr (device dp)), dev_priv = handle dp, devctxt = None\<rparr>"
  obtain r p where rp: "device_drawctxt_create ftbl fl ?c = (r, p)"
    by (cases "device_drawctxt_create ftbl fl ?c")
  have "r \<noteq> 0 \<longrightarrow> p = None"
    using assms [rule_format, of fl ?c] rp by simp
  then show ?thesis
    using True rp
    by (simp add: kgsl_ioctl_drawctxt_create_def kgsl_create_context_def Let_def
        kgsl_destroy_context_def)
qed

text \<open>
  C9. kgsl_destroy_context does not remove a context whose payload is still there:
  the \<open>BUG_ON\<close> fires before the table is touched, so whenever it does return, the
  context had no payload. The source calls it in three places. The destroy request and
  the close first call the backend destroy and then remove the table entry, in that
  order for each context (the recorded calls are the pairs
  \<open>Device_drawctxt_destroy i, Idr_remove i\<close>), so with a backend whose destroy leaves
  no payload the check never fires there. The create request removes the entry it has
  just allocated when the backend create fails; no payload was stored then, provided
  that a failing create leaves none, and the check does not fire either.
\<close>

theorem kgsl_destroy_context_payload_first:
  "(devctxt c \<noteq> None \<longrightarrow> kgsl_destroy_context d (Some c) = Inl BUG) \<and>
   (\<forall>d'. kgsl_destroy_context d (Some c) = Inr d' \<longrightarrow> devctxt c = None) \<and>
   ((\<forall>c. snd (device_drawctxt_destroy ftbl c) = None) \<longrightarrow>
      (\<forall>c. kgsl_find_context dp i = Some c \<longrightarrow>
         (\<exists>result. kgsl_ioctl_drawctxt_destroy ftbl dp i =
            Inr (result,
                 (device dp)\<lparr>context_idr := idr_remove (context_idr (device dp)) i,
                   trace := trace (device dp) @ [Device_drawctxt_destroy i, Idr_remove i]\<rparr>))) \<and>
      (distinct (map ctx_id (context_idr (device dp))) \<longrightarrow>
         (\<exists>result d' private' ids.
            kgsl_release ftbl dp = Inr (result, d', private') \<and>
            set ids = ctx_id ` {c \<in> set (context_idr (device dp)). dev_priv c = handle dp} \<and>
            trace d' = trace (device dp) @
              concat (map (\<lambda>i. [Device_drawctxt_destroy i, Idr_remove i]) ids) @
              (if open_count (device dp) = 0 then [Device_stop] else [])))) \<and>
   ((\<forall>fl c. fst (device_drawctxt_create ftbl fl c) \<noteq> 0 \<longrightarrow>
        snd (device_drawctxt_create ftbl fl c) = None) \<longrightarrow>
      kgsl_ioctl_drawctxt_create ftbl alloc_ok dp ctx_flags i \<noteq> Inl BUG)"
proof (intro conjI impI allI)
  assume "devctxt c \<noteq> None"
  then show "kgsl_destroy_context d (Some c) = Inl BUG"
    by (simp add: kgsl_destroy_context_def)
next
  fix d' assume "kgsl_destroy_context d (Some c) = Inr d'"
  then show "devctxt c = None"
    by (simp add: kgsl_destroy_context_def split: if_splits)
next
  fix c' assume "\<forall>c. snd (device_drawctxt_destroy ftbl c) = None"
    and "kgsl_find_context dp i = Some c'"
  then show "\<exists>result. kgsl_ioctl_drawctxt_destroy ftbl dp i =
      Inr (result,
           (device dp)\<lparr>context_idr := idr_remove (context_idr (device dp)) i,
             trace := trace (device dp) @ [Device_drawctxt_destroy i, Idr_remove i]\<rparr>)"
    using kgsl_ioctl_drawctxt_destroy_cleared by blast
next
  assume a: "\<forall>c. snd (device_drawctxt_destroy ftbl c) = None"
    and b: "distinct (map ctx_id (context_idr (device dp)))"
  from kgsl_release_result [OF a b]
  obtain ids d1 result private' where r:
    "set ids = ctx_id ` {c \<in> set (context_idr (device dp)). dev_priv c = handle dp}"
    "trace d1 = trace (device dp) @ concat (map destroy_events ids) @
                 (if open_count (device dp) = 0 then [Device_stop] else [])"
    "kgsl_release ftbl dp = Inr (result, d1, private')"
    by force
  have "destroy_events = (\<lambda>i. [Device_drawctxt_destroy i, Idr_remove i])"
    by (rule ext) (simp add: destroy_events_def)
  with r show "\<exists>result d' private' ids.
      kgsl_release ftbl dp = Inr (result, d', private') \<and>
      set ids = ctx_id ` {c \<in> set (context_idr (device dp)). dev_priv c = handle dp} \<and>
      trace d' = trace (device dp) @
        concat (map (\<lambda>i. [Device_drawctxt_destroy i, Idr_remove i]) ids) @
        (if open_count (device dp) = 0 then [Device_stop] else [])"
    by auto
next
  assume "\<forall>fl c. fst (device_drawctxt_create ftbl fl c) \<noteq> 0 \<longrightarrow>
        snd (device_drawctxt_create ftbl fl c) = None"
  then show "kgsl_ioctl_drawctxt_create ftbl alloc_ok dp ctx_flags i \<noteq> Inl BUG"
    by (rule kgsl_ioctl_drawctxt_create_no_BUG)
qed

text \<open>
  The theorem at \<open>close_example\<close>, whose contexts all have a payload: destroying
  the table entry first is refused, the destroy request and the close go through, and
  so does a create whose backend fails.
\<close>

theorem kgsl_destroy_context_payload_first_witness:
  "kgsl_destroy_context (device close_example) (Some \<lparr>ctx_id = 0, dev_priv = 1, devctxt = Some 10\<rparr>) = Inl BUG \<and>
   kgsl_find_context close_example 2 = Some \<lparr>ctx_id = 2, dev_priv = 1, devctxt = Some 12\<rparr> \<and>
   (\<exists>result. kgsl_ioctl_drawctxt_destroy example_ftbl close_example 2 =
      Inr (result,
           (device close_example)
             \<lparr>context_idr := [\<lparr>ctx_id = 0, dev_priv = 1, devctxt = Some 10\<rparr>,
                              \<lparr>ctx_id = 1, dev_priv = 2, devctxt = Some 11\<rparr>],
              trace := [Device_drawctxt_destroy 2, Idr_remove 2]\<rparr>)) \<and>
   (\<exists>result d' private' ids.
      kgsl_release example_ftbl close_example = Inr (result, d', private') \<and>
      set ids = {0, 2} \<and>
      trace d' = concat (map (\<lambda>i. [Device_drawctxt_destroy i, Idr_remove i]) ids) @ [Device_stop]) \<and>
   kgsl_ioctl_drawctxt_create (example_ftbl\<lparr>device_drawctxt_create := (\<lambda>fl c. (- ENOMEM, None))\<rparr>)
      True close_example 0 2 \<noteq> Inl BUG"
proof -
  let ?c = "\<lparr>ctx_id = 0, dev_priv = 1, devctxt = Some (10 :: nat)\<rparr>"
  let ?f = "example_ftbl\<lparr>device_drawctxt_create := (\<lambda>fl c. (- ENOMEM, None))\<rparr>"
  note t = kgsl_destroy_context_payload_first [of ?c "device close_example" example_ftbl close_example 2]
  note t' = kgsl_destroy_context_payload_first [of ?c "device close_example" ?f close_example 2 True 0]
  have h1: "devctxt ?c \<noteq> None" by simp
  have h2: "\<forall>c. snd (device_drawctxt_destroy example_ftbl c) = None"
    by (simp add: example_ftbl_def)
  have h3: "kgsl_find_context close_example 2 = Some \<lparr>ctx_id = 2, dev_priv = 1, devctxt = Some 12\<rparr>"
    by (simp add: kgsl_find_context_def close_example_def idle_device_def)
  have h4: "distinct (map ctx_id (context_idr (device close_example)))"
    by (simp add: close_example_def idle_device_def)
  have h5: "\<forall>fl c. fst (device_drawctxt_create ?f fl c) \<noteq> 0 \<longrightarrow> snd (device_drawctxt_create ?f fl c) = None"
    by simp
  have v: "idr_remove (context_idr (device close_example)) 2 =
      [\<lparr>ctx_id = 0, dev_priv = 1, devctxt = Some 10\<rparr>, \<lparr>ctx_id = 1, dev_priv = 2, devctxt = Some 11\<rparr>]"
    "trace (device close_example) = []" "open_count (device close_example) = 0"
    by (simp_all add: close_example_def idle_device_def idr_remove_def)
  have gen: "ctx_id ` {c \<in> set xs. dev_priv c = h} = set (map ctx_id (filter (\<lambda>c. dev_priv c = h) xs))"
    for xs :: "kgsl_context list" and h
    by auto
  have L: "context_idr (device close_example) =
      [\<lparr>ctx_id = 0, dev_priv = 1, devctxt = Some 10\<rparr>, \<lparr>ctx_id = 1, dev_priv = 2, devctxt = Some 11\<rparr>,
       \<lparr>ctx_id = 2, dev_priv = 1, devctxt = Some 12\<rparr>]"
    and H: "handle close_example = 1"
    by (simp_all add: close_example_def idle_device_def)
  have v4: "ctx_id ` {c \<in> set (context_idr (device close_example)). dev_priv c = handle close_example} = {0, 2}"
    unfolding L H gen by simp
  have 1: "kgsl_destroy_context (device close_example) (Some ?c) = Inl BUG"
    using t h1 by blast
  have 2: "\<exists>result. kgsl_ioctl_drawctxt_destroy example_ftbl close_example 2 =
      Inr (result,
           (device close_example)
             \<lparr>context_idr := [\<lparr>ctx_id = 0, dev_priv = 1, devctxt = Some 10\<rparr>,
                              \<lparr>ctx_id = 1, dev_priv = 2, devctxt = Some 11\<rparr>],
              trace := [Device_drawctxt_destroy 2, Idr_remove 2]\<rparr>)"
    using t h2 h3 v by simp
  have 3: "\<exists>result d' private' ids.
      kgsl_release example_ftbl close_example = Inr (result, d', private') \<and>
      set ids = {0, 2} \<and>
      trace d' = concat (map (\<lambda>i. [Device_drawctxt_destroy i, Idr_remove i]) ids) @ [Device_stop]"
    using t h2 h4 v v4 by simp
  have 4: "kgsl_ioctl_drawctxt_create ?f True close_example 0 2 \<noteq> Inl BUG"
    using t' h5 by blast
  show ?thesis
    using 1 h3 2 3 4 by blast
qed

section \<open>Properties of issuing command buffers\<close>

lemma check_ibdesc_log_event [simp]:
  "check_ibdesc env (log_event e dp) ibdesc n parse = check_ibdesc env dp ibdesc n parse"
  by (simp add: check_ibdesc_def log_event_def)

lemma kgsl_ioctl_rb_issueibcmds_empty_list:
  "flags param AND KGSL_CONTEXT_SUBMIT_IB_LIST env \<noteq> 0 \<Longrightarrow> numibs param = 0 \<Longrightarrow>
   kgsl_ioctl_rb_issueibcmds ftbl env dp param = Inr (- EINVAL, dp, param)"
  by (simp add: kgsl_ioctl_rb_issueibcmds_def split: option.splits)

lemma issueibcmds_submit_precheck_fails:
  "check_ibdesc env dp ibdesc (numibs param) True = Inr False \<Longrightarrow>
   issueibcmds_submit ftbl env dp c ibdesc param = Inr (- EINVAL, log_event Kfree dp, param)"
  by (simp add: issueibcmds_submit_def)

lemma issueibcmds_submit_postcheck_fails:
  "check_ibdesc env dp ibdesc (numibs param) True = Inr True \<Longrightarrow>
   device_issueibcmds ftbl (log_event (Device_issueibcmds (ctx_id c)) dp) c ibdesc
     (numibs param) (timestamp param) (flags param) = (0, ts', dp') \<Longrightarrow>
   check_ibdesc env dp' ibdesc (numibs param) False = Inr False \<Longrightarrow>
   issueibcmds_submit ftbl env dp c ibdesc param =
     Inr (- EINVAL, log_event Kfree dp', param\<lparr>timestamp := ts'\<rparr>)"
  by (simp add: issueibcmds_submit_def Let_def)

lemma kgsl_ioctl_rb_issueibcmds_list_precheck_fails:
  assumes "kgsl_find_context dp (drawctxt_id param) = Some c"
    and "flags param AND KGSL_CONTEXT_SUBMIT_IB_LIST env \<noteq> 0" and "numibs param \<noteq> 0"
    and "kzalloc_ok env"
    and "copy_ibdesc_from_user env (ibdesc_addr param) (numibs param) = Some ibdesc"
    and "check_ibdesc env dp ibdesc (numibs param) True = Inr False"
  shows "kgsl_ioctl_rb_issueibcmds ftbl env dp param =
     Inr (- EINVAL, log_event Kfree (log_event Kzalloc dp), param)"
  using assms by (simp add: kgsl_ioctl_rb_issueibcmds_def issueibcmds_submit_precheck_fails)

lemma check_ibdesc_loop_uncovered:
  "n \<le> length ibdesc \<Longrightarrow>
   \<exists>ib \<in> set (take n ibdesc). kgsl_sharedmem_find_region mem (ibdesc_gpuaddr ib) (sizedwords ib * 4) = None \<Longrightarrow>
   check_ibdesc_loop parse_ibs mem ibdesc n parse = Inr False"
proof (induction parse_ibs mem ibdesc n parse rule: check_ibdesc_loop.induct)
  case (1 parse_ibs mem ibdesc parse)
  then show ?case by simp
next
  case (2 parse_ibs mem n parse)
  then show ?case by simp
next
  case (3 parse_ibs mem ib ibdesc n parse)
  then show ?case by (auto split: option.splits)
qed

lemma check_ibdesc_loop_True:
  "check_ibdesc_loop parse_ibs mem ibdesc n parse = Inr True \<Longrightarrow>
   n \<le> length ibdesc \<and>
   (\<forall>ib \<in> set (take n ibdesc).
      kgsl_sharedmem_find_region mem (ibdesc_gpuaddr ib) (sizedwords ib * 4) \<noteq> None)"
proof (induction parse_ibs mem ibdesc n parse rule: check_ibdesc_loop.induct)
  case (1 parse_ibs mem ibdesc parse)
  then show ?case by simp
next
  case (2 parse_ibs mem n parse)
  then show ?case by simp
next
  case (3 parse_ibs mem ib ibdesc n parse)
  then show ?case by (auto split: option.splits if_splits)
qed

lemma check_ibdesc_loop_contained_no_wrap:
  assumes "check_ibdesc_loop parse_ibs mem ibdesc n parse = Inr True"
    and "ib \<in> set (take n ibdesc)"
    and "unat (ibdesc_gpuaddr ib) + unat (sizedwords ib) * 4 < 2 ^ 32"
    and "\<forall>e \<in> set mem. unat (gpuaddr (memdesc e)) + unat (memdesc_size (memdesc e)) < 2 ^ 32"
  shows "\<exists>e \<in> set mem. region_contains e (unat (ibdesc_gpuaddr ib)) (unat (sizedwords ib) * 4)"
proof -
  have sz: "unat (sizedwords ib * 4) = unat (sizedwords ib) * 4"
    using assms(3) by (simp add: unat_word_ariths)
  from check_ibdesc_loop_True [OF assms(1)] assms(2)
  obtain e where e: "kgsl_sharedmem_find_region mem (ibdesc_gpuaddr ib) (sizedwords ib * 4) = Some e"
    by auto
  have "unat (ibdesc_gpuaddr ib) + unat (sizedwords ib * 4) < 2 ^ 32"
    using assms(3) sz by simp
  from kgsl_sharedmem_find_region_no_wrap [OF this assms(4), of e] e
  show ?thesis using sz by auto
qed

text \<open>
  C6. The list form without descriptors returns \<open>-EINVAL\<close>, a failed check before the
  issue returns \<open>-EINVAL\<close> with nothing issued and the array freed, and a failed check
  after the issue returns \<open>-EINVAL\<close> (the lemmas above). But the check before the
  issue lets through descriptors whose range no region contains. The process has one
  region, \<open>[0x1000, 0x2000)\<close>. First request, legacy form: a buffer of \<open>0x40000000\<close>
  words at \<open>0x1000\<close>; check_ibdesc multiplies by 4 in 32 bits and asks for 0 bytes.
  Second request, list form: one descriptor of \<open>0x3FFFFC00\<close> words at \<open>0x1800\<close>;
  the sum in kgsl_sharedmem_find_region wraps. Both are issued and return 0, with a
  new timestamp.
\<close>

theorem kgsl_ioctl_rb_issueibcmds_issues_uncontained:
  "mem_list (process_priv issue_example) = [mk_entry 0x1000 0x1000 1 0] \<and>
   \<not> region_contains (mk_entry 0x1000 0x1000 1 0) (unat (0x1000 :: u32)) (4 * unat (0x40000000 :: u32)) \<and>
   kgsl_ioctl_rb_issueibcmds example_ftbl issue_env_example issue_example
     \<lparr>drawctxt_id = 0, ibdesc_addr = 0x1000, numibs = 0x40000000, timestamp = 0, flags = 0\<rparr> =
     Inr (0,
          issue_example\<lparr>device := (device issue_example)
            \<lparr>ts_consumed := 1, trace := [Kzalloc, Device_issueibcmds 0, Kfree]\<rparr>\<rparr>,
          \<lparr>drawctxt_id = 0, ibdesc_addr = 0x1000, numibs = 1, timestamp = 1, flags = 0\<rparr>) \<and>
   \<not> region_contains (mk_entry 0x1000 0x1000 1 0) (unat (0x1800 :: u32)) (4 * unat (0x3FFFFC00 :: u32)) \<and>
   kgsl_ioctl_rb_issueibcmds example_ftbl issue_env_example issue_example
     \<lparr>drawctxt_id = 0, ibdesc_addr = 0x8000, numibs = 1, timestamp = 0, flags = 4\<rparr> =
     Inr (0,
          issue_example\<lparr>device := (device issue_example)
            \<lparr>ts_consumed := 1, trace := [Kzalloc, Device_issueibcmds 0, Kfree]\<rparr>\<rparr>,
          \<lparr>drawctxt_id = 0, ibdesc_addr = 0x8000, numibs = 1, timestamp = 1, flags = 4\<rparr>)"
  by (simp add: issue_example_def issue_env_example_def example_ftbl_def idle_device_def
      mk_entry_def region_contains_def kgsl_ioctl_rb_issueibcmds_def kgsl_find_context_def
      issueibcmds_submit_def check_ibdesc_def log_event_def Let_def)

section \<open>Properties of the request dispatch\<close>

text \<open>
  C10. If the kernel copy of the payload cannot be had, kgsl_ioctl returns the error
  and touches neither the handle nor the user memory. Otherwise the handler runs, and
  with the value \<open>ret\<close> and the user memory \<open>um1\<close> it returns: if \<open>ret\<close> is not 0,
  kgsl_ioctl returns \<open>ret\<close> and the user memory is \<open>um1\<close>, so the dispatcher has
  copied nothing back; the same holds for a command that is not read-bearing; and if
  \<open>ret\<close> is 0 and the command is read-bearing, the user memory is what \<open>copy_to_user\<close>
  of the payload makes of \<open>um1\<close>, and the value returned is 0, or \<open>-EFAULT\<close> if that
  copy faults.
\<close>

theorem kgsl_ioctl_copies_out_on_success_only:
  "(\<forall>e. ioctl_copy_in env (ioctl_cmd env cmd0) arg um = Inl e \<longrightarrow>
        kgsl_ioctl env dp cmd0 arg um = (e, dp, um)) \<and>
   (\<forall>uptr ret dp1 uptr' um1.
      ioctl_copy_in env (ioctl_cmd env cmd0) arg um = Inr uptr \<longrightarrow>
      fst (ioctl_lookup env cmd0) dp (ioctl_cmd env cmd0) uptr um = (ret, dp1, uptr', um1) \<longrightarrow>
        (ret \<noteq> 0 \<longrightarrow>
           fst (kgsl_ioctl env dp cmd0 arg um) = ret \<and>
           snd (snd (kgsl_ioctl env dp cmd0 arg um)) = um1) \<and>
        (ioctl_cmd env cmd0 AND IOC_OUT env = 0 \<longrightarrow>
           fst (kgsl_ioctl env dp cmd0 arg um) = ret \<and>
           snd (snd (kgsl_ioctl env dp cmd0 arg um)) = um1) \<and>
        (ret = 0 \<and> ioctl_cmd env cmd0 AND IOC_OUT env \<noteq> 0 \<longrightarrow>
           fst (kgsl_ioctl env dp cmd0 arg um) =
             (if fst (copy_to_user env um1 arg uptr') \<noteq> 0 then - EFAULT else 0) \<and>
           snd (snd (kgsl_ioctl env dp cmd0 arg um)) = snd (copy_to_user env um1 arg uptr')))"
proof (intro conjI allI impI)
  fix e assume "ioctl_copy_in env (ioctl_cmd env cmd0) arg um = Inl e"
  then show "kgsl_ioctl env dp cmd0 arg um = (e, dp, um)"
    by (simp add: kgsl_ioctl_def Let_def)
next
  fix uptr ret dp1 uptr' um1
  assume a: "ioctl_copy_in env (ioctl_cmd env cmd0) arg um = Inr uptr"
    and b: "fst (ioctl_lookup env cmd0) dp (ioctl_cmd env cmd0) uptr um = (ret, dp1, uptr', um1)"
  obtain func lock where l: "ioctl_lookup env cmd0 = (func, lock)"
    by (cases "ioctl_lookup env cmd0")
  with b have f: "func dp (ioctl_cmd env cmd0) uptr um = (ret, dp1, uptr', um1)"
    by simp
  {
    assume "ret \<noteq> 0"
    then show "fst (kgsl_ioctl env dp cmd0 arg um) = ret"
      and "snd (snd (kgsl_ioctl env dp cmd0 arg um)) = um1"
      using a l f by (simp_all add: kgsl_ioctl_def Let_def)
  }
  {
    assume "ioctl_cmd env cmd0 AND IOC_OUT env = 0"
    then show "fst (kgsl_ioctl env dp cmd0 arg um) = ret"
      and "snd (snd (kgsl_ioctl env dp cmd0 arg um)) = um1"
      using a l f by (simp_all add: kgsl_ioctl_def Let_def)
  }
  {
    assume "ret = 0 \<and> ioctl_cmd env cmd0 AND IOC_OUT env \<noteq> 0"
    then show "fst (kgsl_ioctl env dp cmd0 arg um) =
        (if fst (copy_to_user env um1 arg uptr') \<noteq> 0 then - EFAULT else 0)"
      and "snd (snd (kgsl_ioctl env dp cmd0 arg um)) = snd (copy_to_user env um1 arg uptr')"
      using a l f by (simp_all add: kgsl_ioctl_def Let_def split: prod.splits)
  }
qed

text \<open>
  The theorem at two read-bearing requests with the payload \<open>1, 2, 3, 4\<close>: the
  handler that fails leaves the caller's buffer as it was, the one that succeeds has
  its payload copied back.
\<close>

theorem kgsl_ioctl_copies_out_on_success_only_witness:
  "ioctl_copy_in ioctl_env_example (ioctl_cmd ioctl_env_example 0xC0040921) 0x5000 [1, 2, 3, 4] =
     Inr [1, 2, 3, 4] \<and>
   fst (ioctl_lookup ioctl_env_example 0xC0040921) free_example
       (ioctl_cmd ioctl_env_example 0xC0040921) [1, 2, 3, 4] [1, 2, 3, 4] =
     (- EINVAL, free_example, [2, 3, 4, 5], [1, 2, 3, 4]) \<and>
   fst (kgsl_ioctl ioctl_env_example free_example 0xC0040921 0x5000 [1, 2, 3, 4]) = - EINVAL \<and>
   snd (snd (kgsl_ioctl ioctl_env_example free_example 0xC0040921 0x5000 [1, 2, 3, 4])) = [1, 2, 3, 4] \<and>
   fst (ioctl_lookup ioctl_env_example 0xC0040911) free_example
       (ioctl_cmd ioctl_env_example 0xC0040911) [1, 2, 3, 4] [1, 2, 3, 4] =
     (0, free_example, [2, 3, 4, 5], [1, 2, 3, 4]) \<and>
   fst (kgsl_ioctl ioctl_env_example free_example 0xC0040911 0x5000 [1, 2, 3, 4]) = 0 \<and>
   snd (snd (kgsl_ioctl ioctl_env_example free_example 0xC0040911 0x5000 [1, 2, 3, 4])) = [2, 3, 4, 5]"
proof -
  let ?E = ioctl_env_example
  let ?um = "[1, 2, 3, 4] :: 8 word list"
  have in1: "ioctl_copy_in ?E (ioctl_cmd ?E 0xC0040921) 0x5000 ?um = Inr ?um"
    and in2: "ioctl_copy_in ?E (ioctl_cmd ?E 0xC0040911) 0x5000 ?um = Inr ?um"
    by (simp_all add: ioctl_env_example_def ioctl_cmd_def ioctl_copy_in_def)
  have f1: "fst (ioctl_lookup ?E 0xC0040921) free_example (ioctl_cmd ?E 0xC0040921) ?um ?um =
      (- EINVAL, free_example, [2, 3, 4, 5], ?um)"
    and f2: "fst (ioctl_lookup ?E 0xC0040911) free_example (ioctl_cmd ?E 0xC0040911) ?um ?um =
      (0, free_example, [2, 3, 4, 5], ?um)"
    by (simp_all add: ioctl_env_example_def ioctl_lookup_def)
  have ne: "- EINVAL \<noteq> (0 :: int)"
    by (simp add: EINVAL_def)
  have out: "ioctl_cmd ?E 0xC0040911 AND IOC_OUT ?E \<noteq> 0"
    by (simp add: ioctl_env_example_def ioctl_cmd_def)
  have cp: "copy_to_user ?E ?um 0x5000 [2, 3, 4, 5] = (0, [2, 3, 4, 5])"
    by (simp add: ioctl_env_example_def)
  note t1 = kgsl_ioctl_copies_out_on_success_only [of ?E "0xC0040921" "0x5000" ?um free_example]
  note t2 = kgsl_ioctl_copies_out_on_success_only [of ?E "0xC0040911" "0x5000" ?um free_example]
  have r1: "fst (kgsl_ioctl ?E free_example 0xC0040921 0x5000 ?um) = - EINVAL \<and>
      snd (snd (kgsl_ioctl ?E free_example 0xC0040921 0x5000 ?um)) = ?um"
    using t1 in1 f1 ne by blast
  have r2: "fst (kgsl_ioctl ?E free_example 0xC0040911 0x5000 ?um) =
        (if fst (copy_to_user ?E ?um 0x5000 [2, 3, 4, 5]) \<noteq> 0 then - EFAULT else 0) \<and>
      snd (snd (kgsl_ioctl ?E free_example 0xC0040911 0x5000 ?um)) =
        snd (copy_to_user ?E ?um 0x5000 [2, 3, 4, 5])"
    using t2 in2 f2 out by blast
  show ?thesis
    using in1 f1 r1 f2 r2 by (simp add: cp)
qed

end
